theory Spec2Isabelle
  imports Complex_Main "HOL-Library.Multiset"
begin

section \<open>Numbers, vectors and the rendering library's rotation algebra\<close>

text \<open>
  The cube widget computes with JavaScript numbers. They are modelled here by the real
  numbers: every arithmetic operation is exact, \<open>Math.PI\<close> is \<open>pi\<close>, and there are
  no signed zeros, infinities or NaN. Grid coordinates (\<open>userData\<close>), slice indices and
  directions are integer valued in every call of the source and are modelled by \<open>int\<close>.

  The operations of the rendering library (three.js) that \<open>rotateSlice\<close> and
  \<open>snapQuaternion\<close> call are written out below, formula by formula, from the library's
  \<open>Vector3\<close>, \<open>Quaternion\<close>, \<open>Matrix4\<close> and \<open>Euler\<close> classes (default Euler order
  \<open>XYZ\<close>).
\<close>

datatype Vector3 = Vector3 (vx: real) (vy: real) (vz: real)

datatype Quaternion = Quaternion (qx: real) (qy: real) (qz: real) (qw: real)

datatype Euler = Euler (ex: real) (ey: real) (ez: real)

text \<open>The upper-left 3x3 block of a \<open>Matrix4\<close>; \<open>mij\<close> is row \<open>i\<close>, column \<open>j\<close>.\<close>

datatype Matrix3 = Matrix3 (m11: real) (m12: real) (m13: real)
                           (m21: real) (m22: real) (m23: real)
                           (m31: real) (m32: real) (m33: real)

definition Math_round :: "real \<Rightarrow> int" where
  "Math_round v = \<lfloor>v + 1 / 2\<rfloor>"

text \<open>
  \<open>Math.atan2\<close> on the reals. On the negative real axis the code does not have one
  value: \<open>Math.atan2(+0, a)\<close> is \<open>pi\<close> and \<open>Math.atan2(-0, a)\<close> is \<open>- pi\<close> for negative
  \<open>a\<close>, and a rounding residue of either sign in place of an exact zero has the same
  effect. The reals have one zero and no residues, and the model takes \<open>pi\<close> there. The two
  angles differ by a full turn: as Euler angles they name the same rotation, and the
  quaternions that \<open>setFromEuler\<close> builds from them differ by their sign only, \<open>q\<close> against
  \<open>- q\<close>, which are the same orientation. What is proved below about a snapped orientation
  is therefore stated on its rotation matrix, or on the quaternion up to its sign, and holds
  for either choice.
\<close>

definition Math_atan2 :: "real \<Rightarrow> real \<Rightarrow> real" where
  "Math_atan2 b a =
     (if 0 < a then arctan (b / a)
      else if a < 0 then (if 0 \<le> b then arctan (b / a) + pi else arctan (b / a) - pi)
      else if 0 < b then pi / 2
      else if b < 0 then - (pi / 2)
      else 0)"

definition clamp :: "real \<Rightarrow> real \<Rightarrow> real \<Rightarrow> real" where
  "clamp v lo hi = max lo (min hi v)"

text \<open>\<open>Quaternion.setFromAxisAngle(axis, angle)\<close>\<close>

definition setFromAxisAngle :: "Vector3 \<Rightarrow> real \<Rightarrow> Quaternion" where
  "setFromAxisAngle ax angle =
     (let halfAngle = angle / 2; s = sin halfAngle
      in Quaternion (vx ax * s) (vy ax * s) (vz ax * s) (cos halfAngle))"

text \<open>\<open>Vector3.applyQuaternion(q)\<close>: \<open>q * v * q\<^sup>-\<^sup>1\<close> for a unit quaternion.\<close>

definition applyQuaternion :: "Vector3 \<Rightarrow> Quaternion \<Rightarrow> Vector3" where
  "applyQuaternion v q =
     (let ix = qw q * vx v + qy q * vz v - qz q * vy v;
          iy = qw q * vy v + qz q * vx v - qx q * vz v;
          iz = qw q * vz v + qx q * vy v - qy q * vx v;
          iw = - qx q * vx v - qy q * vy v - qz q * vz v
      in Vector3 (ix * qw q + iw * - qx q + iy * - qz q - iz * - qy q)
                 (iy * qw q + iw * - qy q + iz * - qx q - ix * - qz q)
                 (iz * qw q + iw * - qz q + ix * - qy q - iy * - qx q))"

text \<open>\<open>a.multiply(b)\<close>, that is \<open>multiplyQuaternions(a, b)\<close>.\<close>

definition multiply :: "Quaternion \<Rightarrow> Quaternion \<Rightarrow> Quaternion" where
  "multiply a b =
     Quaternion (qx a * qw b + qw a * qx b + qy a * qz b - qz a * qy b)
                (qy a * qw b + qw a * qy b + qz a * qx b - qx a * qz b)
                (qz a * qw b + qw a * qz b + qx a * qy b - qy a * qx b)
                (qw a * qw b - qx a * qx b - qy a * qy b - qz a * qz b)"

text \<open>\<open>Matrix4.makeRotationFromQuaternion(q)\<close> (the rotation block of \<open>compose\<close>).\<close>

definition makeRotationFromQuaternion :: "Quaternion \<Rightarrow> Matrix3" where
  "makeRotationFromQuaternion q =
     (let x2 = qx q + qx q; y2 = qy q + qy q; z2 = qz q + qz q;
          xx = qx q * x2; xy = qx q * y2; xz = qx q * z2;
          yy = qy q * y2; yz = qy q * z2; zz = qz q * z2;
          wx = qw q * x2; wy = qw q * y2; wz = qw q * z2
      in Matrix3 (1 - (yy + zz)) (xy - wz) (xz + wy)
                 (xy + wz) (1 - (xx + zz)) (yz - wx)
                 (xz - wy) (yz + wx) (1 - (xx + yy)))"

text \<open>\<open>Euler.setFromRotationMatrix(m, 'XYZ')\<close>\<close>

definition setFromRotationMatrix :: "Matrix3 \<Rightarrow> Euler" where
  "setFromRotationMatrix m =
     (let ey' = arcsin (clamp (m13 m) (- 1) 1)
      in if \<bar>m13 m\<bar> < 0.9999999
         then Euler (Math_atan2 (- m23 m) (m33 m)) ey' (Math_atan2 (- m12 m) (m11 m))
         else Euler (Math_atan2 (m32 m) (m22 m)) ey' 0)"

text \<open>\<open>Euler.setFromQuaternion(q)\<close>\<close>

definition setFromQuaternion :: "Quaternion \<Rightarrow> Euler" where
  "setFromQuaternion q = setFromRotationMatrix (makeRotationFromQuaternion q)"

text \<open>\<open>Quaternion.setFromEuler(euler)\<close>, order \<open>XYZ\<close>.\<close>

definition setFromEuler :: "Euler \<Rightarrow> Quaternion" where
  "setFromEuler e =
     (let c1 = cos (ex e / 2); c2 = cos (ey e / 2); c3 = cos (ez e / 2);
          s1 = sin (ex e / 2); s2 = sin (ey e / 2); s3 = sin (ez e / 2)
      in Quaternion (s1 * c2 * c3 + c1 * s2 * s3)
                    (c1 * s2 * c3 - s1 * c2 * s3)
                    (c1 * c2 * s3 + s1 * s2 * c3)
                    (c1 * c2 * c3 - s1 * s2 * s3))"

text \<open>\<open>Vector3.applyEuler(euler)\<close>\<close>

definition applyEuler :: "Vector3 \<Rightarrow> Euler \<Rightarrow> Vector3" where
  "applyEuler v e = applyQuaternion v (setFromEuler e)"

section \<open>Configuration and the cube model\<close>

definition SEGMENTS :: int where
  "SEGMENTS = 3"

definition GAP :: real where
  "GAP = 0.02"

definition CUBE_SIZE :: real where
  "CUBE_SIZE = 2"

definition SEGMENT_SIZE :: real where
  "SEGMENT_SIZE = (CUBE_SIZE - GAP * (real_of_int SEGMENTS - 1)) / real_of_int SEGMENTS"

text \<open>\<open>const offset = (SEGMENTS - 1) / 2\<close>\<close>

definition offset :: real where
  "offset = (real_of_int SEGMENTS - 1) / 2"

datatype axis = AxisX | AxisY | AxisZ

text \<open>\<open>cube.userData = { x, y, z }\<close>: the grid coordinate of a sub-cube.\<close>

datatype GridPos = GridPos (gx: int) (gy: int) (gz: int)

record cube =
  userData :: GridPos
  position :: Vector3
  quaternion :: Quaternion

text \<open>The position that the builder and the snap step derive from a grid coordinate.\<close>

definition gridPosition :: "GridPos \<Rightarrow> Vector3" where
  "gridPosition g =
     Vector3 ((real_of_int (gx g) - offset) * (SEGMENT_SIZE + GAP))
             ((real_of_int (gy g) - offset) * (SEGMENT_SIZE + GAP))
             ((real_of_int (gz g) - offset) * (SEGMENT_SIZE + GAP))"

definition isEdge :: "int \<Rightarrow> int \<Rightarrow> int \<Rightarrow> bool" where
  "isEdge a b c \<longleftrightarrow>
     a = 0 \<or> a = SEGMENTS - 1 \<or> b = 0 \<or> b = SEGMENTS - 1 \<or> c = 0 \<or> c = SEGMENTS - 1"

definition newCube :: "int \<Rightarrow> int \<Rightarrow> int \<Rightarrow> cube" where
  "newCube a b c =
     \<lparr> userData = GridPos a b c,
       position = gridPosition (GridPos a b c),
       quaternion = Quaternion 0 0 0 1 \<rparr>"

text \<open>The triple loop that builds \<open>smallCubes\<close>, skipping the interior cell.\<close>

definition buildCubes :: "cube list" where
  "buildCubes =
     concat (map (\<lambda>a. concat (map (\<lambda>b. concat (map (\<lambda>c.
        if isEdge a b c then [newCube a b c] else []) [0..SEGMENTS - 1]))
        [0..SEGMENTS - 1])) [0..SEGMENTS - 1])"

section \<open>Slice rotation (main.js)\<close>

record move =
  move_axis :: axis
  move_index :: int
  move_direction :: int

text \<open>
  What the closure \<open>animateSlice\<close> captures. \<open>sliceCubes\<close> holds references to elements of
  \<open>smallCubes\<close>; they are modelled by the elements' indices in \<open>smallCubes\<close>, which never
  changes its length or order.
\<close>

record animation =
  rotationAxis :: Vector3
  targetAngle :: real
  sliceCubes :: "nat list"
  originalPositions :: "Vector3 list"
  originalQuaternions :: "Quaternion list"

text \<open>
  The module-level variables. \<open>pendingFrame\<close> is the \<open>animateSlice\<close> callback handed to
  \<open>requestAnimationFrame\<close>, \<open>awaiting\<close> the face index of a \<open>navigateToFace\<close> call
  suspended at its \<open>await\<close>, \<open>solveTimers\<close> the number of \<open>checkForSolve\<close> timeouts not
  yet fired. \<open>darkModeClass\<close>, \<open>bloomPass_enabled\<close>, \<open>chromaticPass_enabled\<close> and
  \<open>materialPreset\<close> (the last argument of \<open>applyMaterialPreset\<close>) stand for the visual preset.
  The rotation of the whole cube toward the viewer, the drag velocity, the camera and the
  overlay never reach \<open>smallCubes\<close>, the flags or the move history, and are left out.
\<close>

record state =
  smallCubes :: "cube list"
  isAnimating :: bool
  moveHistory :: "move list"
  isSolved :: bool
  isDarkMode :: bool
  hasBeenMixed :: bool
  introComplete :: bool
  currentFace :: int
  darkModeClass :: bool
  bloomPass_enabled :: bool
  chromaticPass_enabled :: bool
  materialPreset :: int
  pendingFrame :: "animation option"
  awaiting :: "nat option"
  solveTimers :: nat

definition inSlice :: "axis \<Rightarrow> int \<Rightarrow> GridPos \<Rightarrow> bool" where
  "inSlice a i pos = (case a of AxisX \<Rightarrow> gx pos = i | AxisY \<Rightarrow> gy pos = i | AxisZ \<Rightarrow> gz pos = i)"

definition duration :: real where
  "duration = 350"

text \<open>The first \<open>forEach\<close> of \<open>animateSlice\<close>: rotate every slice cube from its original pose.\<close>

fun rotateEach ::
  "Quaternion \<Rightarrow> nat list \<Rightarrow> Vector3 list \<Rightarrow> Quaternion list \<Rightarrow> cube list \<Rightarrow> cube list" where
  "rotateEach rotQuat (i # is) (p # ps) (q # qs) cs =
     rotateEach rotQuat is ps qs
       (cs[i := (cs ! i)\<lparr>position := applyQuaternion p rotQuat, quaternion := multiply rotQuat q\<rparr>])"
| "rotateEach rotQuat _ _ _ cs = cs"

definition snapQuaternion :: "Quaternion \<Rightarrow> Quaternion" where
  "snapQuaternion q =
     (let euler = setFromQuaternion q;
          x' = real_of_int (Math_round (ex euler / (pi / 2))) * (pi / 2);
          y' = real_of_int (Math_round (ey euler / (pi / 2))) * (pi / 2);
          z' = real_of_int (Math_round (ez euler / (pi / 2))) * (pi / 2)
      in setFromEuler (Euler x' y' z'))"

text \<open>The body of the second \<open>forEach\<close>: the snap of one cube.\<close>

definition snapCube :: "cube \<Rightarrow> cube" where
  "snapCube c =
     (let gridX = Math_round (vx (position c) / (SEGMENT_SIZE + GAP) + offset);
          gridY = Math_round (vy (position c) / (SEGMENT_SIZE + GAP) + offset);
          gridZ = Math_round (vz (position c) / (SEGMENT_SIZE + GAP) + offset)
      in \<lparr> userData = GridPos gridX gridY gridZ,
           position = Vector3 ((real_of_int gridX - offset) * (SEGMENT_SIZE + GAP))
                              ((real_of_int gridY - offset) * (SEGMENT_SIZE + GAP))
                              ((real_of_int gridZ - offset) * (SEGMENT_SIZE + GAP)),
           quaternion = snapQuaternion (quaternion c) \<rparr>)"

fun snapEach :: "nat list \<Rightarrow> cube list \<Rightarrow> cube list" where
  "snapEach [] cs = cs"
| "snapEach (i # is) cs = snapEach is (cs[i := snapCube (cs ! i)])"

text \<open>
  One invocation of \<open>animateSlice\<close>, \<open>elapsed\<close> milliseconds after \<open>start\<close>. The boolean
  says whether the promise of \<open>rotateSlice\<close> was resolved by this invocation.
\<close>

definition animateSlice :: "animation \<Rightarrow> real \<Rightarrow> state \<Rightarrow> state \<times> bool" where
  "animateSlice an elapsed st =
     (let progress = min (elapsed / duration) 1;
          eased = 1 - (1 - progress) ^ 3;
          currentAngle = targetAngle an * eased;
          rotQuat = setFromAxisAngle (rotationAxis an) currentAngle;
          cs = rotateEach rotQuat (sliceCubes an) (originalPositions an)
                 (originalQuaternions an) (smallCubes st)
      in if progress < 1
         then (st\<lparr>smallCubes := cs, pendingFrame := Some an\<rparr>, False)
         else (st\<lparr>smallCubes := snapEach (sliceCubes an) cs, isAnimating := False,
                    pendingFrame := None\<rparr>, True))"

text \<open>
  \<open>rotateSlice(axis, index, direction, recordMove)\<close> up to the return of the call, with the
  first, synchronous invocation of \<open>animateSlice\<close>. The boolean says whether the returned
  promise is already resolved.
\<close>

definition rotateSlice :: "axis \<Rightarrow> int \<Rightarrow> int \<Rightarrow> bool \<Rightarrow> real \<Rightarrow> state \<Rightarrow> state \<times> bool" where
  "rotateSlice a i direction recordMove elapsed st =
     (if isAnimating st then (st, True)
      else
        let st1 = st\<lparr>isAnimating := True\<rparr>;
            st2 = (if recordMove
                   then st1\<lparr>moveHistory := moveHistory st1 @
                               [\<lparr>move_axis = a, move_index = i, move_direction = direction\<rparr>],
                            isSolved := False\<rparr>
                   else st1);
            sl = filter (\<lambda>j. inSlice a i (userData (smallCubes st2 ! j)))
                   [0..<length (smallCubes st2)];
            an = \<lparr> rotationAxis = Vector3 (if a = AxisX then 1 else 0)
                                          (if a = AxisY then 1 else 0)
                                          (if a = AxisZ then 1 else 0),
                   targetAngle = (pi / 2) * real_of_int direction,
                   sliceCubes = sl,
                   originalPositions = map (\<lambda>j. position (smallCubes st2 ! j)) sl,
                   originalQuaternions = map (\<lambda>j. quaternion (smallCubes st2 ! j)) sl \<rparr>
        in animateSlice an elapsed st2)"

section \<open>Solved-state detection and the dark-mode toggle (main.js)\<close>

text \<open>
  A decoration dot as \<open>checkIfSolved\<close> sees it: its world position (\<open>getWorldPosition\<close>, which
  depends on the scene graph of the rendering library) and its color tag.
\<close>

record dot =
  worldPos :: Vector3
  colorHex :: nat

record faceDots =
  plusX :: "nat list"
  minusX :: "nat list"
  plusY :: "nat list"
  minusY :: "nat list"
  plusZ :: "nat list"
  minusZ :: "nat list"

definition threshold :: real where
  "threshold = CUBE_SIZE / 2 - 0.1"

definition pushDot :: "faceDots \<Rightarrow> dot \<Rightarrow> faceDots" where
  "pushDot fd d =
     (if vx (worldPos d) > threshold then fd\<lparr>plusX := plusX fd @ [colorHex d]\<rparr>
      else if vx (worldPos d) < - threshold then fd\<lparr>minusX := minusX fd @ [colorHex d]\<rparr>
      else if vy (worldPos d) > threshold then fd\<lparr>plusY := plusY fd @ [colorHex d]\<rparr>
      else if vy (worldPos d) < - threshold then fd\<lparr>minusY := minusY fd @ [colorHex d]\<rparr>
      else if vz (worldPos d) > threshold then fd\<lparr>plusZ := plusZ fd @ [colorHex d]\<rparr>
      else if vz (worldPos d) < - threshold then fd\<lparr>minusZ := minusZ fd @ [colorHex d]\<rparr>
      else fd)"

definition collectDots :: "dot list \<Rightarrow> faceDots" where
  "collectDots dots =
     foldl pushDot \<lparr>plusX = [], minusX = [], plusY = [], minusY = [], plusZ = [], minusZ = []\<rparr> dots"

text \<open>One round of the final loop: \<open>False\<close> is the early \<open>return false\<close>.\<close>

definition faceOk :: "nat list \<Rightarrow> bool" where
  "faceOk colors =
     (if length colors \<noteq> 9 then False
      else let firstColor = colors ! 0 in list_all (\<lambda>c. c = firstColor) colors)"

definition checkIfSolved :: "dot list \<Rightarrow> bool" where
  "checkIfSolved dots =
     (let fd = collectDots dots
      in list_all faceOk [plusX fd, minusX fd, plusY fd, minusY fd, plusZ fd, minusZ fd])"

definition checkForSolve :: "dot list \<Rightarrow> state \<Rightarrow> state \<times> bool" where
  "checkForSolve dots st =
     (if \<not> hasBeenMixed st then (st\<lparr>hasBeenMixed := True\<rparr>, False)
      else if checkIfSolved dots then
        (let st1 = st\<lparr>isDarkMode := \<not> isDarkMode st\<rparr>;
             st2 = st1\<lparr>darkModeClass := isDarkMode st1\<rparr>;
             st3 = st2\<lparr>bloomPass_enabled := isDarkMode st2,
                       chromaticPass_enabled := isDarkMode st2\<rparr>;
             st4 = (if isDarkMode st3 then st3\<lparr>materialPreset := - 1\<rparr> else st3)
         in (st4\<lparr>hasBeenMixed := False\<rparr>, True))
      else (st, False))"

section \<open>Face navigation (main.js)\<close>

definition faceToMove :: "nat \<Rightarrow> move option" where
  "faceToMove faceIndex =
     (if faceIndex = 0 then Some \<lparr>move_axis = AxisX, move_index = 2, move_direction = 1\<rparr>
      else if faceIndex = 1 then Some \<lparr>move_axis = AxisX, move_index = 0, move_direction = - 1\<rparr>
      else if faceIndex = 2 then Some \<lparr>move_axis = AxisY, move_index = 2, move_direction = 1\<rparr>
      else if faceIndex = 3 then Some \<lparr>move_axis = AxisY, move_index = 0, move_direction = - 1\<rparr>
      else if faceIndex = 4 then Some \<lparr>move_axis = AxisZ, move_index = 2, move_direction = 1\<rparr>
      else if faceIndex = 5 then Some \<lparr>move_axis = AxisZ, move_index = 0, move_direction = - 1\<rparr>
      else None)"

text \<open>
  The part of \<open>navigateToFace\<close> after the \<open>await\<close>: schedule \<open>checkForSolve\<close>, apply the
  material preset and record the face. The background color, the button highlight and the
  whole-cube target rotation are presentation only and not modelled. For a face index
  without a preset \<open>applyMaterialPreset\<close> throws before it changes a material, and the
  statements after it are not reached.
\<close>

definition afterRotation :: "nat \<Rightarrow> state \<Rightarrow> state" where
  "afterRotation faceIndex st =
     (let st1 = st\<lparr>solveTimers := solveTimers st + 1\<rparr>
      in if faceIndex < 6
         then st1\<lparr>materialPreset := int faceIndex, currentFace := int faceIndex\<rparr>
         else st1)"

definition navigateToFace :: "nat \<Rightarrow> real \<Rightarrow> state \<Rightarrow> state" where
  "navigateToFace faceIndex elapsed st =
     (if isAnimating st \<or> \<not> introComplete st then st
      else case faceToMove faceIndex of
             None \<Rightarrow> afterRotation faceIndex st
           | Some m \<Rightarrow>
               (let (st', resolved) =
                      rotateSlice (move_axis m) (move_index m) (move_direction m) False elapsed st
                in if resolved then afterRotation faceIndex st'
                   else st'\<lparr>awaiting := Some faceIndex\<rparr>))"

text \<open>
  The events of the page: a click on a navigation button, an animation frame, and the
  firing of a \<open>checkForSolve\<close> timeout (with the dots as they are at that instant).
\<close>

definition frame :: "real \<Rightarrow> state \<Rightarrow> state" where
  "frame elapsed st =
     (case pendingFrame st of
        None \<Rightarrow> st
      | Some an \<Rightarrow>
          (let (st', resolved) = animateSlice an elapsed st
           in if resolved
              then (case awaiting st' of
                      None \<Rightarrow> st'
                    | Some f \<Rightarrow> afterRotation f (st'\<lparr>awaiting := None\<rparr>))
              else st'))"

definition solveTimeout :: "dot list \<Rightarrow> state \<Rightarrow> state" where
  "solveTimeout dots st =
     (if solveTimers st = 0 then st
      else fst (checkForSolve dots (st\<lparr>solveTimers := solveTimers st - 1\<rparr>)))"

datatype event = Click nat real | Frame real | SolveTimeout "dot list"

fun step :: "state \<Rightarrow> event \<Rightarrow> state" where
  "step st (Click faceIndex elapsed) = navigateToFace faceIndex elapsed st"
| "step st (Frame elapsed) = frame elapsed st"
| "step st (SolveTimeout dots) = solveTimeout dots st"

definition run :: "state \<Rightarrow> event list \<Rightarrow> state" where
  "run st evs = foldl step st evs"

text \<open>The page once the intro animation has put every cube on its built position.\<close>

definition initialState :: state where
  "initialState =
     \<lparr> smallCubes = buildCubes, isAnimating = False, moveHistory = [], isSolved = True,
       isDarkMode = False, hasBeenMixed = False, introComplete = True, currentFace = - 1,
       darkModeClass = False, bloomPass_enabled = False, chromaticPass_enabled = False,
       materialPreset = - 1, pendingFrame = None, awaiting = None, solveTimers = 0 \<rparr>"

section \<open>Slice rotation of the second variant\<close>

text \<open>
  The second source file has no move history, no dots and no snap step. Its \<open>rotateSlice\<close>
  turns a helper group (\<open>rotationGroup\<close>) during the animation and, at completion, applies
  the group's Euler rotation to every slice cube: to its position with \<open>applyEuler\<close>, to its
  own Euler angles by addition. Which group is the parent of a cube in the scene graph is
  presentation only and not modelled.
\<close>

record cubeB =
  userDataB :: GridPos
  positionB :: Vector3
  rotationB :: Euler

record animationB =
  axisB :: axis
  targetRotationB :: real
  sliceCubesB :: "nat list"

record stateB =
  smallCubesB :: "cubeB list"
  isAnimatingB :: bool
  rotationGroup_rotation :: Euler
  pendingFrameB :: "animationB option"

definition durationB :: real where
  "durationB = 600"

definition easeInOutCubic :: "real \<Rightarrow> real" where
  "easeInOutCubic progress =
     (if progress < 0.5 then 4 * progress * progress * progress
      else 1 - (- 2 * progress + 2) ^ 3 / 2)"

text \<open>\<open>if (axis === 'x') rotationGroup.rotation.x = v\<close> and its two siblings.\<close>

definition setAxisRotation :: "axis \<Rightarrow> real \<Rightarrow> Euler \<Rightarrow> Euler" where
  "setAxisRotation a v e =
     (case a of AxisX \<Rightarrow> Euler v (ey e) (ez e)
              | AxisY \<Rightarrow> Euler (ex e) v (ez e)
              | AxisZ \<Rightarrow> Euler (ex e) (ey e) v)"

definition completeCubeB :: "Euler \<Rightarrow> cubeB \<Rightarrow> cubeB" where
  "completeCubeB rg c =
     (let p = applyEuler (positionB c) rg;
          r = Euler (ex (rotationB c) + ex rg) (ey (rotationB c) + ey rg) (ez (rotationB c) + ez rg);
          roundedPos = GridPos (Math_round (vx p / (SEGMENT_SIZE + GAP) + 1))
                               (Math_round (vy p / (SEGMENT_SIZE + GAP) + 1))
                               (Math_round (vz p / (SEGMENT_SIZE + GAP) + 1))
      in \<lparr> userDataB = roundedPos, positionB = p, rotationB = r \<rparr>)"

fun completeEachB :: "Euler \<Rightarrow> nat list \<Rightarrow> cubeB list \<Rightarrow> cubeB list" where
  "completeEachB rg [] cs = cs"
| "completeEachB rg (i # is) cs = completeEachB rg is (cs[i := completeCubeB rg (cs ! i)])"

definition animateB :: "animationB \<Rightarrow> real \<Rightarrow> stateB \<Rightarrow> stateB \<times> bool" where
  "animateB an elapsed st =
     (let progress = min (elapsed / durationB) 1;
          eased = easeInOutCubic progress;
          rg = setAxisRotation (axisB an) (targetRotationB an * eased) (rotationGroup_rotation st)
      in if progress < 1
         then (st\<lparr>rotationGroup_rotation := rg, pendingFrameB := Some an\<rparr>, False)
         else (st\<lparr>smallCubesB := completeEachB rg (sliceCubesB an) (smallCubesB st),
                    rotationGroup_rotation := Euler 0 0 0, isAnimatingB := False,
                    pendingFrameB := None\<rparr>, True))"

definition rotateSliceB :: "axis \<Rightarrow> int \<Rightarrow> int \<Rightarrow> real \<Rightarrow> stateB \<Rightarrow> stateB \<times> bool" where
  "rotateSliceB a i direction elapsed st =
     (if isAnimatingB st then (st, True)
      else
        let st1 = st\<lparr>isAnimatingB := True\<rparr>;
            sl = filter (\<lambda>j. inSlice a i (userDataB (smallCubesB st1 ! j)))
                   [0..<length (smallCubesB st1)];
            an = \<lparr> axisB = a, targetRotationB = (pi / 2) * real_of_int direction,
                   sliceCubesB = sl \<rparr>
        in animateB an elapsed st1)"

definition frameB :: "real \<Rightarrow> stateB \<Rightarrow> stateB" where
  "frameB elapsed st =
     (case pendingFrameB st of None \<Rightarrow> st | Some an \<Rightarrow> fst (animateB an elapsed st))"

definition framesB :: "stateB \<Rightarrow> real list \<Rightarrow> stateB" where
  "framesB st es = foldl (\<lambda>s e. frameB e s) st es"

definition newCubeB :: "int \<Rightarrow> int \<Rightarrow> int \<Rightarrow> cubeB" where
  "newCubeB a b c =
     \<lparr> userDataB = GridPos a b c,
       positionB = gridPosition (GridPos a b c),
       rotationB = Euler 0 0 0 \<rparr>"

definition buildCubesB :: "cubeB list" where
  "buildCubesB =
     concat (map (\<lambda>a. concat (map (\<lambda>b. concat (map (\<lambda>c.
        if isEdge a b c then [newCubeB a b c] else []) [0..SEGMENTS - 1]))
        [0..SEGMENTS - 1])) [0..SEGMENTS - 1])"

definition initialStateB :: stateB where
  "initialStateB =
     \<lparr> smallCubesB = buildCubesB, isAnimatingB = False,
       rotationGroup_rotation = Euler 0 0 0, pendingFrameB = None \<rparr>"

section \<open>Notions used to state the properties\<close>

text \<open>
  A rotation that runs to completion: the call of \<open>rotateSlice\<close>, whose first
  \<open>animateSlice\<close> sees \<open>e0\<close> elapsed milliseconds, followed by animation frames that see
  \<open>es\<close>. It completes when one of these readings has reached the duration.
\<close>

definition rotateSliceRun ::
  "axis \<Rightarrow> int \<Rightarrow> int \<Rightarrow> bool \<Rightarrow> real \<Rightarrow> real list \<Rightarrow> state \<Rightarrow> state" where
  "rotateSliceRun a i d recordMove e0 es st =
     run (fst (rotateSlice a i d recordMove e0 st)) (map Frame es)"

definition completes :: "real \<Rightarrow> real list \<Rightarrow> bool" where
  "completes e0 es \<longleftrightarrow> list_ex (\<lambda>e. duration \<le> e) (e0 # es)"

definition rotateSliceRunB ::
  "axis \<Rightarrow> int \<Rightarrow> int \<Rightarrow> real \<Rightarrow> real list \<Rightarrow> stateB \<Rightarrow> stateB" where
  "rotateSliceRunB a i d e0 es st = framesB (fst (rotateSliceB a i d e0 st)) es"

definition completesB :: "real \<Rightarrow> real list \<Rightarrow> bool" where
  "completesB e0 es \<longleftrightarrow> list_ex (\<lambda>e. durationB \<le> e) (e0 # es)"

definition validMove :: "axis \<Rightarrow> int \<Rightarrow> int \<Rightarrow> bool" where
  "validMove a i d \<longleftrightarrow> (i = 0 \<or> i = 1 \<or> i = 2) \<and> (d = 1 \<or> d = - 1)"

text \<open>The 26 grid cells of the visible shell.\<close>

definition shell :: "GridPos set" where
  "shell = {g. (gx g = 0 \<or> gx g = 1 \<or> gx g = 2) \<and> (gy g = 0 \<or> gy g = 1 \<or> gy g = 2) \<and>
               (gz g = 0 \<or> gz g = 1 \<or> gz g = 2) \<and> g \<noteq> GridPos 1 1 1}"

text \<open>
  The invariant of the data model at rest: the grid coordinates are unique, they are
  exactly the shell, and every cube stands on the position of its grid coordinate.
\<close>

definition onGrid :: "cube list \<Rightarrow> bool" where
  "onGrid cs \<longleftrightarrow>
     distinct (map userData cs) \<and> set (map userData cs) = shell \<and>
     list_all (\<lambda>c. position c = gridPosition (userData c)) cs"

definition atRest :: "state \<Rightarrow> bool" where
  "atRest st \<longleftrightarrow> \<not> isAnimating st \<and> pendingFrame st = None \<and> onGrid (smallCubes st)"

definition onGridB :: "cubeB list \<Rightarrow> bool" where
  "onGridB cs \<longleftrightarrow>
     distinct (map userDataB cs) \<and> set (map userDataB cs) = shell \<and>
     list_all (\<lambda>c. positionB c = gridPosition (userDataB c)) cs"

definition atRestB :: "stateB \<Rightarrow> bool" where
  "atRestB st \<longleftrightarrow>
     \<not> isAnimatingB st \<and> pendingFrameB st = None \<and>
     rotationGroup_rotation st = Euler 0 0 0 \<and> onGridB (smallCubesB st)"

text \<open>The grid cell reached by a quarter turn about an axis, computed on the integers.\<close>

definition turnGrid :: "axis \<Rightarrow> int \<Rightarrow> GridPos \<Rightarrow> GridPos" where
  "turnGrid a d g =
     (case a of
        AxisX \<Rightarrow> if d = 1 then GridPos (gx g) (2 - gz g) (gy g)
                 else GridPos (gx g) (gz g) (2 - gy g)
      | AxisY \<Rightarrow> if d = 1 then GridPos (gz g) (gy g) (2 - gx g)
                 else GridPos (2 - gz g) (gy g) (gx g)
      | AxisZ \<Rightarrow> if d = 1 then GridPos (2 - gy g) (gx g) (gz g)
                 else GridPos (gy g) (2 - gx g) (gz g))"

definition turnIf :: "axis \<Rightarrow> int \<Rightarrow> int \<Rightarrow> GridPos \<Rightarrow> GridPos" where
  "turnIf a i d g = (if inSlice a i g then turnGrid a d g else g)"

text \<open>The pieces of \<open>rotateSlice\<close> by name: the captured closure, the full-angle quaternion
  of the last frame, and what the last frame makes of one cube and of the whole list.\<close>

definition axisVector :: "axis \<Rightarrow> Vector3" where
  "axisVector a =
     Vector3 (if a = AxisX then 1 else 0) (if a = AxisY then 1 else 0) (if a = AxisZ then 1 else 0)"

definition sliceAnimation :: "axis \<Rightarrow> int \<Rightarrow> int \<Rightarrow> cube list \<Rightarrow> animation" where
  "sliceAnimation a i d cs =
     (let sl = filter (\<lambda>j. inSlice a i (userData (cs ! j))) [0..<length cs]
      in \<lparr> rotationAxis = axisVector a,
           targetAngle = (pi / 2) * real_of_int d,
           sliceCubes = sl,
           originalPositions = map (\<lambda>j. position (cs ! j)) sl,
           originalQuaternions = map (\<lambda>j. quaternion (cs ! j)) sl \<rparr>)"

definition quarterTurn :: "axis \<Rightarrow> int \<Rightarrow> Quaternion" where
  "quarterTurn a d = setFromAxisAngle (axisVector a) ((pi / 2) * real_of_int d)"

definition turnedCube :: "axis \<Rightarrow> int \<Rightarrow> cube \<Rightarrow> cube" where
  "turnedCube a d c =
     c\<lparr>position := applyQuaternion (position c) (quarterTurn a d),
       quaternion := multiply (quarterTurn a d) (quaternion c)\<rparr>"

definition turnCube :: "axis \<Rightarrow> int \<Rightarrow> cube \<Rightarrow> cube" where
  "turnCube a d c = snapCube (turnedCube a d c)"

definition turnSlice :: "axis \<Rightarrow> int \<Rightarrow> int \<Rightarrow> cube list \<Rightarrow> cube list" where
  "turnSlice a i d cs = map (\<lambda>c. if inSlice a i (userData c) then turnCube a d c else c) cs"

definition recorded :: "axis \<Rightarrow> int \<Rightarrow> int \<Rightarrow> bool \<Rightarrow> state \<Rightarrow> state" where
  "recorded a i d recordMove st =
     (if recordMove
      then st\<lparr>moveHistory := moveHistory st @
                  [\<lparr>move_axis = a, move_index = i, move_direction = d\<rparr>],
              isSolved := False\<rparr>
      else st)"

text \<open>During a rotation the grid coordinates and the cubes outside the slice stay as they
  were when the rotation started.\<close>

definition midTurn :: "axis \<Rightarrow> int \<Rightarrow> cube list \<Rightarrow> cube list \<Rightarrow> bool" where
  "midTurn a i cs0 cs \<longleftrightarrow>
     length cs = length cs0 \<and>
     (\<forall>j < length cs0. userData (cs ! j) = userData (cs0 ! j) \<and>
        (\<not> inSlice a i (userData (cs0 ! j)) \<longrightarrow> cs ! j = cs0 ! j))"

definition inFlight :: "axis \<Rightarrow> int \<Rightarrow> int \<Rightarrow> cube list \<Rightarrow> state \<Rightarrow> bool" where
  "inFlight a i d cs0 s \<longleftrightarrow>
     isAnimating s \<and> pendingFrame s = Some (sliceAnimation a i d cs0) \<and>
     midTurn a i cs0 (smallCubes s)"

definition landed :: "axis \<Rightarrow> int \<Rightarrow> int \<Rightarrow> cube list \<Rightarrow> state \<Rightarrow> bool" where
  "landed a i d cs0 s \<longleftrightarrow>
     \<not> isAnimating s \<and> pendingFrame s = None \<and> smallCubes s = turnSlice a i d cs0"

text \<open>
  The solved check, said without the accumulating loop: the face on which a dot counts is
  the first direction, in the order of the source's tests, along which its world position
  lies beyond the threshold; the group of a face is the color tags of its dots.
\<close>

datatype face = PlusX | MinusX | PlusY | MinusY | PlusZ | MinusZ

definition classify :: "dot \<Rightarrow> face option" where
  "classify d =
     (if vx (worldPos d) > threshold then Some PlusX
      else if vx (worldPos d) < - threshold then Some MinusX
      else if vy (worldPos d) > threshold then Some PlusY
      else if vy (worldPos d) < - threshold then Some MinusY
      else if vz (worldPos d) > threshold then Some PlusZ
      else if vz (worldPos d) < - threshold then Some MinusZ
      else None)"

definition faceGroup :: "face \<Rightarrow> dot list \<Rightarrow> nat list" where
  "faceGroup f dots = map colorHex (filter (\<lambda>d. classify d = Some f) dots)"

definition sameColor :: "nat list \<Rightarrow> bool" where
  "sameColor cs \<longleftrightarrow> (\<forall>c\<in>set cs. \<forall>c'\<in>set cs. c = c')"

text \<open>A synthetic layout: nine dots beyond the threshold on each face, one color per face
  (the six values of \<open>RUBIKS_COLORS\<close>).\<close>

definition solvedDots :: "dot list" where
  "solvedDots =
     concat (map (\<lambda>(p, c). replicate 9 \<lparr>worldPos = p, colorHex = c\<rparr>)
       [(Vector3 1 0 0, 255), (Vector3 (- 1) 0 0, 8900331), (Vector3 0 1 0, 16711680),
        (Vector3 0 (- 1) 0, 16747520), (Vector3 0 0 1, 16763904), (Vector3 0 0 (- 1), 16777215)])"

text \<open>The six face-center cells, and the cubes that stand on them in the built cube.\<close>

definition isFaceCentre :: "GridPos \<Rightarrow> bool" where
  "isFaceCentre g \<longleftrightarrow>
     (g = GridPos 0 1 1 \<or> g = GridPos 2 1 1 \<or> g = GridPos 1 0 1 \<or> g = GridPos 1 2 1 \<or>
      g = GridPos 1 1 0 \<or> g = GridPos 1 1 2)"

definition centresHome :: "cube list \<Rightarrow> bool" where
  "centresHome cs \<longleftrightarrow>
     length cs = length buildCubes \<and>
     (\<forall>j < length buildCubes. isFaceCentre (userData (buildCubes ! j)) \<longrightarrow>
        userData (cs ! j) = userData (buildCubes ! j))"

text \<open>
  The invariant of every state that clicks, frames and timeouts reach from the initial
  state: nothing is recorded, and either the cube is at rest on the grid or a rotation
  requested by a navigation button is in flight over a cube that was at rest.
\<close>

definition navInv :: "state \<Rightarrow> bool" where
  "navInv s \<longleftrightarrow>
     introComplete s \<and> moveHistory s = [] \<and> isSolved s \<and>
     ((\<not> isAnimating s \<and> pendingFrame s = None \<and> onGrid (smallCubes s) \<and>
        centresHome (smallCubes s)) \<or>
      (\<exists>f m cs0. faceToMove f = Some m \<and> onGrid cs0 \<and> centresHome cs0 \<and>
         inFlight (move_axis m) (move_index m) (move_direction m) cs0 s))"

text \<open>Two states with the same cubes, animation flag and pending animation frame.\<close>

definition sameCubes :: "state \<Rightarrow> state \<Rightarrow> bool" where
  "sameCubes s s' \<longleftrightarrow>
     smallCubes s = smallCubes s' \<and> isAnimating s = isAnimating s' \<and>
     pendingFrame s = pendingFrame s'"

text \<open>
  Orientations. \<open>q\<close> and \<open>negate q\<close> give the same rotation matrix, the orientation that is
  drawn. \<open>qE k1 k2 k3\<close> is the quaternion of the Euler angles \<open>k1\<close>, \<open>k2\<close>, \<open>k3\<close> quarter
  turns, \<open>turnQ\<close> what a completed rotation makes of an orientation, and \<open>Q24\<close> lists the
  quaternions of the 24 axis-aligned orientations as the snap step writes them.
\<close>

definition negate :: "Quaternion \<Rightarrow> Quaternion" where
  "negate q = Quaternion (- qx q) (- qy q) (- qz q) (- qw q)"

definition qE :: "int \<Rightarrow> int \<Rightarrow> int \<Rightarrow> Quaternion" where
  "qE k1 k2 k3 =
     setFromEuler (Euler (real_of_int k1 * (pi / 2)) (real_of_int k2 * (pi / 2))
                         (real_of_int k3 * (pi / 2)))"

definition turnQ :: "axis \<Rightarrow> int \<Rightarrow> Quaternion \<Rightarrow> Quaternion" where
  "turnQ a d q = snapQuaternion (multiply (quarterTurn a d) q)"

definition Q24 :: "Quaternion list" where
  "Q24 = concat (map (\<lambda>k1. map (\<lambda>k3. qE k1 0 k3) [- 1, 0, 1, 2]) [- 1, 0, 1, 2]) @
         concat (map (\<lambda>k1. map (\<lambda>k2. qE k1 k2 0) [- 1, 1]) [- 1, 0, 1, 2])"

text \<open>The pieces of the second variant's \<open>rotateSlice\<close> by name.\<close>

definition axisEuler :: "axis \<Rightarrow> real \<Rightarrow> Euler" where
  "axisEuler a v = setAxisRotation a v (Euler 0 0 0)"

definition sliceAnimationB :: "axis \<Rightarrow> int \<Rightarrow> int \<Rightarrow> cubeB list \<Rightarrow> animationB" where
  "sliceAnimationB a i d cs =
     \<lparr> axisB = a, targetRotationB = (pi / 2) * real_of_int d,
       sliceCubesB = filter (\<lambda>j. inSlice a i (userDataB (cs ! j))) [0..<length cs] \<rparr>"

definition turnCubeB :: "axis \<Rightarrow> int \<Rightarrow> cubeB \<Rightarrow> cubeB" where
  "turnCubeB a d c = completeCubeB (axisEuler a ((pi / 2) * real_of_int d)) c"

definition turnSliceB :: "axis \<Rightarrow> int \<Rightarrow> int \<Rightarrow> cubeB list \<Rightarrow> cubeB list" where
  "turnSliceB a i d cs = map (\<lambda>c. if inSlice a i (userDataB c) then turnCubeB a d c else c) cs"

definition inFlightB :: "axis \<Rightarrow> int \<Rightarrow> int \<Rightarrow> cubeB list \<Rightarrow> stateB \<Rightarrow> bool" where
  "inFlightB a i d cs0 s \<longleftrightarrow>
     isAnimatingB s \<and> pendingFrameB s = Some (sliceAnimationB a i d cs0) \<and>
     smallCubesB s = cs0 \<and> setAxisRotation a 0 (rotationGroup_rotation s) = Euler 0 0 0"

definition landedB :: "axis \<Rightarrow> int \<Rightarrow> int \<Rightarrow> cubeB list \<Rightarrow> stateB \<Rightarrow> bool" where
  "landedB a i d cs0 s \<longleftrightarrow>
     \<not> isAnimatingB s \<and> pendingFrameB s = None \<and>
     rotationGroup_rotation s = Euler 0 0 0 \<and> smallCubesB s = turnSliceB a i d cs0"

text \<open>
  The orientation of a cube is the rotation matrix of its quaternion; \<open>q\<close> and \<open>negate q\<close>
  are the same orientation. An axis-aligned orientation is one of the 24 rotations of the
  cube onto itself, carried by a quaternion of \<open>Q24\<close> or by its negation, and
  \<open>alignedOrientations\<close> says that every cube of a list has one. \<open>samePose\<close> compares two
  cubes by grid coordinate, position and orientation, and \<open>rotationDistance\<close> is the squared
  distance of two orientations, entry by entry of their matrices. The orientation of a cube
  of the second variant is the rotation matrix of its Euler angles.
\<close>

definition axisAligned :: "Quaternion \<Rightarrow> bool" where
  "axisAligned q \<longleftrightarrow> q \<in> set Q24 \<or> negate q \<in> set Q24"

definition alignedOrientations :: "cube list \<Rightarrow> bool" where
  "alignedOrientations cs \<longleftrightarrow> list_all (\<lambda>c. axisAligned (quaternion c)) cs"

definition samePose :: "cube \<Rightarrow> cube \<Rightarrow> bool" where
  "samePose c c' \<longleftrightarrow>
     userData c = userData c' \<and> position c = position c' \<and>
     makeRotationFromQuaternion (quaternion c) = makeRotationFromQuaternion (quaternion c')"


definition orientationB :: "cubeB \<Rightarrow> Matrix3" where
  "orientationB c = makeRotationFromQuaternion (setFromEuler (rotationB c))"



definition driftedCube :: cube where
  "driftedCube =
     \<lparr> userData = GridPos 2 1 1, position = Vector3 (101 / 150 + 1 / 1000) 0 0,
       quaternion = Quaternion 0 0 0 1 \<rparr>"

section \<open>The library's newer formula for rotating a vector\<close>

text \<open>
  Later versions of the library compute \<open>applyQuaternion\<close> with two cross products. On a
  unit quaternion, the only kind that \<open>rotateSlice\<close> passes, both formulas agree.
\<close>

lemma applyQuaternion_unit:
  assumes "qx q * qx q + qy q * qy q + qz q * qz q + qw q * qw q = 1"
  shows "applyQuaternion v q =
     (let tx = 2 * (qy q * vz v - qz q * vy v);
          ty = 2 * (qz q * vx v - qx q * vz v);
          tz = 2 * (qx q * vy v - qy q * vx v)
      in Vector3 (vx v + qw q * tx + qy q * tz - qz q * ty)
                 (vy v + qw q * ty + qz q * tx - qx q * tz)
                 (vz v + qw q * tz + qx q * ty - qy q * tx))"
proof -
  have u: "qw q * (qw q * t) + (qx q * (qx q * t) + (qy q * (qy q * t) + qz q * (qz q * t))) = t"
    for t
  proof -
    have "qw q * (qw q * t) + (qx q * (qx q * t) + (qy q * (qy q * t) + qz q * (qz q * t))) =
          (qx q * qx q + qy q * qy q + qz q * qz q + qw q * qw q) * t"
      by (simp add: algebra_simps)
    then show ?thesis by (simp only: assms mult_1_left)
  qed
  show ?thesis
    unfolding applyQuaternion_def Let_def
    by (simp add: algebra_simps u)
qed

section \<open>The two loops over the slice\<close>

lemma rotateEach_length [simp]: "length (rotateEach r is ps qs cs) = length cs"
  by (induction r "is" ps qs cs rule: rotateEach.induct) simp_all

lemma snapEach_length [simp]: "length (snapEach is cs) = length cs"
  by (induction "is" arbitrary: cs) simp_all

lemma rotateEach_nth:
  "distinct is \<Longrightarrow> \<forall>i\<in>set is. i < length cs \<Longrightarrow>
   rotateEach r is (map (\<lambda>j. position (cs0 ! j)) is) (map (\<lambda>j. quaternion (cs0 ! j)) is) cs ! j =
     (if j \<in> set is
      then (cs ! j)\<lparr>position := applyQuaternion (position (cs0 ! j)) r,
                    quaternion := multiply r (quaternion (cs0 ! j))\<rparr>
      else cs ! j)"
proof (induction "is" arbitrary: cs)
  case Nil
  then show ?case by simp
next
  case (Cons i "is")
  then show ?case by (auto simp: nth_list_update)
qed

lemma snapEach_nth:
  "distinct is \<Longrightarrow> \<forall>i\<in>set is. i < length cs \<Longrightarrow>
   snapEach is cs ! j = (if j \<in> set is then snapCube (cs ! j) else cs ! j)"
proof (induction "is" arbitrary: cs)
  case Nil
  then show ?case by simp
next
  case (Cons i "is")
  then show ?case by (auto simp: nth_list_update)
qed

lemma snapCube_cong:
  "position c = position c' \<Longrightarrow> quaternion c = quaternion c' \<Longrightarrow> snapCube c = snapCube c'"
  by (simp add: snapCube_def)

lemma rotateSlice_unfold:
  "\<not> isAnimating st \<Longrightarrow>
   rotateSlice a i d r e st =
     animateSlice (sliceAnimation a i d (smallCubes st)) e
       (recorded a i d r (st\<lparr>isAnimating := True\<rparr>))"
  by (cases r) (simp_all add: rotateSlice_def sliceAnimation_def recorded_def axisVector_def Let_def)

lemma midTurn_refl: "midTurn a i cs0 cs0"
  by (simp add: midTurn_def)

lemma sliceCubes_set:
  "set (sliceCubes (sliceAnimation a i d cs0)) =
     {j. j < length cs0 \<and> inSlice a i (userData (cs0 ! j))}"
  by (auto simp: sliceAnimation_def Let_def)

lemma sliceCubes_distinct: "distinct (sliceCubes (sliceAnimation a i d cs0))"
  by (simp add: sliceAnimation_def Let_def)

lemma rotateEach_slice_nth:
  assumes "length cs = length cs0"
  shows "rotateEach r (sliceCubes (sliceAnimation a i d cs0))
           (originalPositions (sliceAnimation a i d cs0))
           (originalQuaternions (sliceAnimation a i d cs0)) cs ! j =
         (if j < length cs0 \<and> inSlice a i (userData (cs0 ! j))
          then (cs ! j)\<lparr>position := applyQuaternion (position (cs0 ! j)) r,
                        quaternion := multiply r (quaternion (cs0 ! j))\<rparr>
          else cs ! j)"
proof -
  let ?sl = "filter (\<lambda>j. inSlice a i (userData (cs0 ! j))) [0..<length cs0]"
  have "rotateEach r ?sl (map (\<lambda>j. position (cs0 ! j)) ?sl)
          (map (\<lambda>j. quaternion (cs0 ! j)) ?sl) cs ! j =
     (if j \<in> set ?sl
      then (cs ! j)\<lparr>position := applyQuaternion (position (cs0 ! j)) r,
                    quaternion := multiply r (quaternion (cs0 ! j))\<rparr>
      else cs ! j)"
    by (rule rotateEach_nth) (use assms in auto)
  then show ?thesis by (simp add: sliceAnimation_def Let_def)
qed

lemma animateSlice_midway:
  assumes "e < duration" "midTurn a i cs0 (smallCubes st)"
  shows "\<exists>cs. animateSlice (sliceAnimation a i d cs0) e st =
           (st\<lparr>smallCubes := cs, pendingFrame := Some (sliceAnimation a i d cs0)\<rparr>, False)
           \<and> midTurn a i cs0 cs"
proof -
  have p: "min (e / duration) 1 < 1" using assms(1) by (simp add: duration_def)
  have len: "length (smallCubes st) = length cs0" using assms(2) by (simp add: midTurn_def)
  show ?thesis
    using p assms(2)
    by (auto simp: animateSlice_def Let_def midTurn_def rotateEach_slice_nth[OF len])
qed

lemma animateSlice_final:
  assumes "duration \<le> e" "midTurn a i cs0 (smallCubes st)"
  shows "animateSlice (sliceAnimation a i d cs0) e st =
           (st\<lparr>smallCubes := turnSlice a i d cs0, isAnimating := False,
               pendingFrame := None\<rparr>, True)"
proof -
  have p: "min (e / duration) 1 = 1" using assms(1) by (simp add: duration_def)
  have len: "length (smallCubes st) = length cs0" using assms(2) by (simp add: midTurn_def)
  let ?an = "sliceAnimation a i d cs0"
  let ?r = "quarterTurn a d"
  let ?cs = "rotateEach ?r (sliceCubes ?an) (originalPositions ?an) (originalQuaternions ?an)
               (smallCubes st)"
  have "snapEach (sliceCubes ?an) ?cs = turnSlice a i d cs0"
  proof (rule nth_equalityI)
    show "length (snapEach (sliceCubes ?an) ?cs) = length (turnSlice a i d cs0)"
      by (simp add: len turnSlice_def)
  next
    fix j assume "j < length (snapEach (sliceCubes ?an) ?cs)"
    then have j: "j < length cs0" by (simp add: len)
    have "snapEach (sliceCubes ?an) ?cs ! j =
            (if j \<in> set (sliceCubes ?an) then snapCube (?cs ! j) else ?cs ! j)"
      by (rule snapEach_nth) (auto simp: sliceCubes_distinct sliceCubes_set len)
    then show "snapEach (sliceCubes ?an) ?cs ! j = turnSlice a i d cs0 ! j"
      using j assms(2)
      by (auto simp: sliceCubes_set rotateEach_slice_nth[OF len] turnSlice_def turnCube_def
            turnedCube_def midTurn_def intro!: snapCube_cong)
  qed
  then show ?thesis
    using p by (simp add: animateSlice_def Let_def quarterTurn_def sliceAnimation_def)
qed

section \<open>Frames of a rotation in flight\<close>

lemma afterRotation_fields [simp]:
  "smallCubes (afterRotation f s) = smallCubes s"
  "isAnimating (afterRotation f s) = isAnimating s"
  "pendingFrame (afterRotation f s) = pendingFrame s"
  "moveHistory (afterRotation f s) = moveHistory s"
  "isSolved (afterRotation f s) = isSolved s"
  "awaiting (afterRotation f s) = awaiting s"
  "introComplete (afterRotation f s) = introComplete s"
  by (simp_all add: afterRotation_def Let_def)

lemma recorded_fields [simp]:
  "smallCubes (recorded a i d r s) = smallCubes s"
  "isAnimating (recorded a i d r s) = isAnimating s"
  "pendingFrame (recorded a i d r s) = pendingFrame s"
  "awaiting (recorded a i d r s) = awaiting s"
  "introComplete (recorded a i d r s) = introComplete s"
  by (simp_all add: recorded_def)

lemma frame_idle: "pendingFrame s = None \<Longrightarrow> frame e s = s"
  by (simp add: frame_def)

lemma frame_inFlight_early:
  assumes "inFlight a i d cs0 s" "e < duration"
  shows "inFlight a i d cs0 (frame e s)"
proof -
  from assms(1) have pf: "pendingFrame s = Some (sliceAnimation a i d cs0)"
    and mt: "midTurn a i cs0 (smallCubes s)" and an: "isAnimating s"
    by (simp_all add: inFlight_def)
  from animateSlice_midway[OF assms(2) mt, of d] obtain cs where
    "animateSlice (sliceAnimation a i d cs0) e s =
       (s\<lparr>smallCubes := cs, pendingFrame := Some (sliceAnimation a i d cs0)\<rparr>, False)"
    "midTurn a i cs0 cs" by blast
  then show ?thesis using pf an by (simp add: frame_def inFlight_def)
qed

lemma frame_inFlight_late:
  assumes "inFlight a i d cs0 s" "duration \<le> e"
  shows "landed a i d cs0 (frame e s)"
proof -
  from assms(1) have pf: "pendingFrame s = Some (sliceAnimation a i d cs0)"
    and mt: "midTurn a i cs0 (smallCubes s)"
    by (simp_all add: inFlight_def)
  show ?thesis
    using pf animateSlice_final[OF assms(2) mt, of d]
    by (simp add: frame_def landed_def split: option.split)
qed

lemma frame_keeps:
  "moveHistory (frame e s) = moveHistory s" "isSolved (frame e s) = isSolved s"
  "length (smallCubes (frame e s)) = length (smallCubes s)"
  "introComplete (frame e s) = introComplete s"
  by (auto simp: frame_def animateSlice_def Let_def split: option.split)

lemma run_Nil [simp]: "run s [] = s"
  by (simp add: run_def)

lemma run_Cons [simp]: "run s (ev # evs) = run (step s ev) evs"
  by (simp add: run_def)

lemma run_append: "run s (evs @ evs') = run (run s evs) evs'"
  by (simp add: run_def)

lemma run_frames_idle: "pendingFrame s = None \<Longrightarrow> run s (map Frame es) = s"
  by (induction es) (simp_all add: frame_idle)

lemma run_frames_landed:
  "inFlight a i d cs0 s \<Longrightarrow> \<exists>e\<in>set es. duration \<le> e \<Longrightarrow>
   landed a i d cs0 (run s (map Frame es))"
proof (induction es arbitrary: s)
  case Nil
  then show ?case by simp
next
  case (Cons e es)
  show ?case
  proof (cases "duration \<le> e")
    case True
    then have l: "landed a i d cs0 (frame e s)"
      using Cons.prems(1) by (simp add: frame_inFlight_late)
    then have "pendingFrame (frame e s) = None" by (simp add: landed_def)
    then show ?thesis using l by (simp add: run_frames_idle)
  next
    case False
    then have "inFlight a i d cs0 (frame e s)"
      using Cons.prems(1) by (simp add: frame_inFlight_early)
    moreover have "\<exists>e\<in>set es. duration \<le> e" using Cons.prems(2) False by auto
    ultimately show ?thesis using Cons.IH by simp
  qed
qed

lemma run_frames_inFlight:
  "inFlight a i d cs0 s \<Longrightarrow> \<forall>e\<in>set es. e < duration \<Longrightarrow>
   inFlight a i d cs0 (run s (map Frame es))"
  by (induction es arbitrary: s) (simp_all add: frame_inFlight_early)

lemma run_frames_keeps:
  "moveHistory (run s (map Frame es)) = moveHistory s \<and>
   isSolved (run s (map Frame es)) = isSolved s"
  by (induction es arbitrary: s) (simp_all add: frame_keeps)

lemma rotateSlice_early:
  assumes "\<not> isAnimating st" "e < duration"
  shows "inFlight a i d (smallCubes st) (fst (rotateSlice a i d r e st)) \<and>
         \<not> snd (rotateSlice a i d r e st)"
proof -
  have mt: "midTurn a i (smallCubes st)
              (smallCubes (recorded a i d r (st\<lparr>isAnimating := True\<rparr>)))"
    by (simp add: midTurn_refl)
  from animateSlice_midway[OF assms(2) mt, of d] obtain cs where
    "animateSlice (sliceAnimation a i d (smallCubes st)) e
        (recorded a i d r (st\<lparr>isAnimating := True\<rparr>)) =
       ((recorded a i d r (st\<lparr>isAnimating := True\<rparr>))\<lparr>smallCubes := cs,
          pendingFrame := Some (sliceAnimation a i d (smallCubes st))\<rparr>, False)"
    "midTurn a i (smallCubes st) cs" by blast
  then show ?thesis
    by (simp add: rotateSlice_unfold[OF assms(1)] inFlight_def)
qed

lemma rotateSlice_late:
  assumes "\<not> isAnimating st" "duration \<le> e"
  shows "rotateSlice a i d r e st =
           ((recorded a i d r (st\<lparr>isAnimating := True\<rparr>))\<lparr>
               smallCubes := turnSlice a i d (smallCubes st),
               isAnimating := False, pendingFrame := None\<rparr>, True)"
proof -
  have mt: "midTurn a i (smallCubes st)
              (smallCubes (recorded a i d r (st\<lparr>isAnimating := True\<rparr>)))"
    by (simp add: midTurn_refl)
  show ?thesis
    using animateSlice_final[OF assms(2) mt, of d] by (simp add: rotateSlice_unfold[OF assms(1)])
qed

lemma rotateSlice_history:
  "\<not> isAnimating st \<Longrightarrow>
   moveHistory (fst (rotateSlice a i d r e st)) = moveHistory (recorded a i d r st) \<and>
   isSolved (fst (rotateSlice a i d r e st)) = isSolved (recorded a i d r st)"
  by (cases r) (auto simp: rotateSlice_def animateSlice_def recorded_def Let_def)

lemma completes_iff: "completes e0 es \<longleftrightarrow> duration \<le> e0 \<or> (\<exists>e\<in>set es. duration \<le> e)"
  by (simp add: completes_def list_ex_iff)

lemma rotateSliceRun_landed:
  assumes "\<not> isAnimating st" "completes e0 es"
  shows "landed a i d (smallCubes st) (rotateSliceRun a i d r e0 es st)"
proof (cases "duration \<le> e0")
  case True
  then have "landed a i d (smallCubes st) (fst (rotateSlice a i d r e0 st))"
    by (simp add: rotateSlice_late[OF assms(1)] landed_def)
  then show ?thesis by (simp add: rotateSliceRun_def run_frames_idle landed_def)
next
  case False
  then have "inFlight a i d (smallCubes st) (fst (rotateSlice a i d r e0 st))"
    using rotateSlice_early[OF assms(1)] by simp
  moreover have "\<exists>e\<in>set es. duration \<le> e" using assms(2) False by (simp add: completes_iff)
  ultimately show ?thesis unfolding rotateSliceRun_def by (rule run_frames_landed)
qed

section \<open>Quarter turns on the grid\<close>

lemma spacing: "SEGMENT_SIZE + GAP = 101 / 150"
  by (simp add: SEGMENT_SIZE_def GAP_def CUBE_SIZE_def SEGMENTS_def)

lemma spacing_nz: "SEGMENT_SIZE + GAP \<noteq> 0"
  by (simp add: spacing)

lemma offset_1: "offset = 1"
  by (simp add: offset_def SEGMENTS_def)

lemma quarterTurn_pos:
  "quarterTurn a 1 =
     (case a of AxisX \<Rightarrow> Quaternion (sqrt 2 / 2) 0 0 (sqrt 2 / 2)
              | AxisY \<Rightarrow> Quaternion 0 (sqrt 2 / 2) 0 (sqrt 2 / 2)
              | AxisZ \<Rightarrow> Quaternion 0 0 (sqrt 2 / 2) (sqrt 2 / 2))"
  by (cases a) (simp_all add: quarterTurn_def setFromAxisAngle_def axisVector_def sin_45 cos_45)

lemma quarterTurn_neg:
  "quarterTurn a (- 1) =
     (case a of AxisX \<Rightarrow> Quaternion (- (sqrt 2 / 2)) 0 0 (sqrt 2 / 2)
              | AxisY \<Rightarrow> Quaternion 0 (- (sqrt 2 / 2)) 0 (sqrt 2 / 2)
              | AxisZ \<Rightarrow> Quaternion 0 0 (- (sqrt 2 / 2)) (sqrt 2 / 2))"
  by (cases a) (simp_all add: quarterTurn_def setFromAxisAngle_def axisVector_def sin_45 cos_45)

lemma applyQuaternion_quarterTurn:
  assumes "d = 1 \<or> d = - 1"
  shows "applyQuaternion (gridPosition g) (quarterTurn a d) = gridPosition (turnGrid a d g)"
  using assms
  by (cases a)
     (auto simp: quarterTurn_pos quarterTurn_neg applyQuaternion_def gridPosition_def turnGrid_def
        offset_1 spacing field_simps)

lemma Math_round_of_int: "Math_round (real_of_int n) = n"
  unfolding Math_round_def by (rule floor_unique) simp_all

lemma snapCube_gridPosition:
  "position c = gridPosition g \<Longrightarrow>
   userData (snapCube c) = g \<and> position (snapCube c) = gridPosition g"
  by (cases g) (simp add: snapCube_def gridPosition_def Math_round_of_int spacing_nz Let_def)

lemma turnCube_rest:
  assumes "d = 1 \<or> d = - 1" "position c = gridPosition (userData c)"
  shows "userData (turnCube a d c) = turnGrid a d (userData c) \<and>
         position (turnCube a d c) = gridPosition (turnGrid a d (userData c))"
  using snapCube_gridPosition[of "turnedCube a d c" "turnGrid a d (userData c)"]
    applyQuaternion_quarterTurn[OF assms(1), of "userData c" a] assms(2)
  by (simp add: turnCube_def turnedCube_def)

lemma turnGrid_inSlice: "d = 1 \<or> d = - 1 \<Longrightarrow> inSlice a i (turnGrid a d g) = inSlice a i g"
  by (cases a) (auto simp: inSlice_def turnGrid_def)

lemma turnGrid_shell: "d = 1 \<or> d = - 1 \<Longrightarrow> g \<in> shell \<Longrightarrow> turnGrid a d g \<in> shell"
  by (cases a; cases g) (auto simp: shell_def turnGrid_def)

lemma turnGrid_inverse: "d = 1 \<or> d = - 1 \<Longrightarrow> turnGrid a (- d) (turnGrid a d g) = g"
  by (cases a; cases g) (auto simp: turnGrid_def)

lemma turnIf_inverse: "d = 1 \<or> d = - 1 \<Longrightarrow> turnIf a i (- d) (turnIf a i d g) = g"
  using turnGrid_inSlice[of d a i g] turnGrid_inverse[of d a g]
  by (auto simp: turnIf_def)

lemma turnIf_shell: "d = 1 \<or> d = - 1 \<Longrightarrow> g \<in> shell \<Longrightarrow> turnIf a i d g \<in> shell"
  by (simp add: turnIf_def turnGrid_shell)

lemma turnIf_inj: "d = 1 \<or> d = - 1 \<Longrightarrow> inj (turnIf a i d)"
  by (rule inj_on_inverseI[where g = "turnIf a i (- d)"]) (simp add: turnIf_inverse)

lemma turnIf_image_shell:
  assumes "d = 1 \<or> d = - 1"
  shows "turnIf a i d ` shell = shell"
proof
  show "turnIf a i d ` shell \<subseteq> shell" using assms by (auto simp: turnIf_shell)
next
  show "shell \<subseteq> turnIf a i d ` shell"
  proof
    fix g assume g: "g \<in> shell"
    have d': "- d = 1 \<or> - d = - 1" using assms by auto
    have "turnIf a i (- d) g \<in> shell" using d' g by (rule turnIf_shell)
    moreover have "turnIf a i d (turnIf a i (- d) g) = g"
      using turnIf_inverse[OF d', of a i g] by simp
    ultimately show "g \<in> turnIf a i d ` shell" by (metis imageI)
  qed
qed

lemma turnSlice_userData:
  assumes "d = 1 \<or> d = - 1" "list_all (\<lambda>c. position c = gridPosition (userData c)) cs"
  shows "map userData (turnSlice a i d cs) = map (turnIf a i d) (map userData cs)"
  using assms by (auto simp: turnSlice_def turnIf_def turnCube_rest list_all_iff)

lemma turnSlice_onGrid:
  assumes "d = 1 \<or> d = - 1" "onGrid cs"
  shows "onGrid (turnSlice a i d cs)"
proof -
  from assms(2) have dist: "distinct (map userData cs)" and sh: "set (map userData cs) = shell"
    and pos: "list_all (\<lambda>c. position c = gridPosition (userData c)) cs"
    by (simp_all add: onGrid_def)
  have ud: "map userData (turnSlice a i d cs) = map (turnIf a i d) (map userData cs)"
    using assms(1) pos by (rule turnSlice_userData)
  have "distinct (map (turnIf a i d) (map userData cs))"
    using dist turnIf_inj[OF assms(1)] by (simp add: distinct_map inj_on_def inj_def)
  moreover have "set (map (turnIf a i d) (map userData cs)) = shell"
    using sh turnIf_image_shell[OF assms(1), of a i] by (metis set_map)
  moreover have "list_all (\<lambda>c. position c = gridPosition (userData c)) (turnSlice a i d cs)"
    using pos assms(1) by (auto simp: turnSlice_def turnCube_rest list_all_iff)
  ultimately show ?thesis by (simp add: onGrid_def ud)
qed

lemma turnSlice_mset:
  assumes "d = 1 \<or> d = - 1" "onGrid cs"
  shows "mset (map userData (turnSlice a i d cs)) = mset (map userData cs)"
proof -
  have "onGrid (turnSlice a i d cs)" using assms by (rule turnSlice_onGrid)
  then show ?thesis using assms(2)
    by (metis onGrid_def set_eq_iff_mset_eq_distinct)
qed

text \<open>
  The rounding of the snap step absorbs any error of the rotated position below half a
  grid step, on each axis.
\<close>

lemma snapCube_tolerant:
  assumes "\<bar>vx (position c) - vx (gridPosition g)\<bar> < (SEGMENT_SIZE + GAP) / 2"
    "\<bar>vy (position c) - vy (gridPosition g)\<bar> < (SEGMENT_SIZE + GAP) / 2"
    "\<bar>vz (position c) - vz (gridPosition g)\<bar> < (SEGMENT_SIZE + GAP) / 2"
  shows "userData (snapCube c) = g \<and> position (snapCube c) = gridPosition g"
proof -
  have r: "Math_round (v / (SEGMENT_SIZE + GAP) + offset) = n"
    if "\<bar>v - (real_of_int n - offset) * (SEGMENT_SIZE + GAP)\<bar> < (SEGMENT_SIZE + GAP) / 2"
    for v n
  proof -
    have "\<bar>v - (real_of_int n - 1) * (101 / 150)\<bar> < 101 / 300"
      using that by (simp add: spacing offset_1)
    then have "(real_of_int n - 1) * (101 / 150) - 101 / 300 < v"
      "v < (real_of_int n - 1) * (101 / 150) + 101 / 300"
      by linarith+
    then have "real_of_int n \<le> v / (101 / 150) + 1 + 1 / 2"
      "v / (101 / 150) + 1 + 1 / 2 < real_of_int n + 1"
      by (simp_all add: field_simps)
    then show ?thesis
      unfolding Math_round_def spacing offset_1 by (intro floor_unique) simp_all
  qed
  show ?thesis
    using assms
    by (cases g) (simp add: snapCube_def Let_def gridPosition_def r)
qed

lemma turnSlice_nth:
  "j < length cs \<Longrightarrow>
   turnSlice a i d cs ! j =
     (if inSlice a i (userData (cs ! j)) then turnCube a d (cs ! j) else cs ! j)"
  by (simp add: turnSlice_def)

lemma turnSlice_length [simp]: "length (turnSlice a i d cs) = length cs"
  by (simp add: turnSlice_def)

section \<open>The built cube\<close>

lemma upto_0_2: "[0..(2::int)] = [0, 1, 2]"
  by (simp add: upto.simps)

lemma buildCubes_list:
  "buildCubes =
     [newCube 0 0 0, newCube 0 0 1, newCube 0 0 2, newCube 0 1 0, newCube 0 1 1, newCube 0 1 2,
      newCube 0 2 0, newCube 0 2 1, newCube 0 2 2,
      newCube 1 0 0, newCube 1 0 1, newCube 1 0 2, newCube 1 1 0, newCube 1 1 2,
      newCube 1 2 0, newCube 1 2 1, newCube 1 2 2,
      newCube 2 0 0, newCube 2 0 1, newCube 2 0 2, newCube 2 1 0, newCube 2 1 1, newCube 2 1 2,
      newCube 2 2 0, newCube 2 2 1, newCube 2 2 2]"
  by (simp add: buildCubes_def SEGMENTS_def upto_0_2 isEdge_def)

lemma userData_buildCubes:
  "map userData buildCubes =
     [GridPos 0 0 0, GridPos 0 0 1, GridPos 0 0 2, GridPos 0 1 0, GridPos 0 1 1, GridPos 0 1 2,
      GridPos 0 2 0, GridPos 0 2 1, GridPos 0 2 2,
      GridPos 1 0 0, GridPos 1 0 1, GridPos 1 0 2, GridPos 1 1 0, GridPos 1 1 2,
      GridPos 1 2 0, GridPos 1 2 1, GridPos 1 2 2,
      GridPos 2 0 0, GridPos 2 0 1, GridPos 2 0 2, GridPos 2 1 0, GridPos 2 1 1, GridPos 2 1 2,
      GridPos 2 2 0, GridPos 2 2 1, GridPos 2 2 2]"
  by (simp add: buildCubes_list newCube_def)

lemma shell_cases:
  assumes "g \<in> shell"
  shows "g \<in> set [GridPos 0 0 0, GridPos 0 0 1, GridPos 0 0 2, GridPos 0 1 0, GridPos 0 1 1,
      GridPos 0 1 2, GridPos 0 2 0, GridPos 0 2 1, GridPos 0 2 2,
      GridPos 1 0 0, GridPos 1 0 1, GridPos 1 0 2, GridPos 1 1 0, GridPos 1 1 2,
      GridPos 1 2 0, GridPos 1 2 1, GridPos 1 2 2,
      GridPos 2 0 0, GridPos 2 0 1, GridPos 2 0 2, GridPos 2 1 0, GridPos 2 1 1, GridPos 2 1 2,
      GridPos 2 2 0, GridPos 2 2 1, GridPos 2 2 2]"
proof (cases g)
  case (GridPos a b c)
  with assms have "a = 0 \<or> a = 1 \<or> a = 2" "b = 0 \<or> b = 1 \<or> b = 2" "c = 0 \<or> c = 1 \<or> c = 2"
    "\<not> (a = 1 \<and> b = 1 \<and> c = 1)"
    by (auto simp: shell_def)
  then show ?thesis unfolding GridPos by (elim disjE; simp)
qed

lemma buildCubes_onGrid: "onGrid buildCubes"
proof -
  have d: "distinct (map userData buildCubes)"
    by (simp add: userData_buildCubes)
  have s1: "set (map userData buildCubes) \<subseteq> shell"
    by (simp add: userData_buildCubes shell_def)
  have s2: "shell \<subseteq> set (map userData buildCubes)"
    unfolding userData_buildCubes by (rule subsetI) (rule shell_cases)
  have p: "list_all (\<lambda>c. position c = gridPosition (userData c)) buildCubes"
    by (simp add: buildCubes_list newCube_def)
  show ?thesis
    unfolding onGrid_def
  proof (intro conjI)
    show "distinct (map userData buildCubes)" by (rule d)
    show "set (map userData buildCubes) = shell" using s1 s2 by (rule equalityI)
    show "list_all (\<lambda>c. position c = gridPosition (userData c)) buildCubes" by (rule p)
  qed
qed

lemma nth_buildCubes_21: "buildCubes ! 21 = newCube 2 1 1"
  by (simp add: buildCubes_list)

lemma length_buildCubes: "length buildCubes = 26"
  by (simp add: buildCubes_list)

lemma atRest_initialState: "atRest initialState"
  by (simp add: atRest_def initialState_def buildCubes_onGrid)

lemma landed_atRest:
  assumes "landed a i d cs0 s" "onGrid cs0" "d = 1 \<or> d = - 1"
  shows "atRest s"
  using assms turnSlice_onGrid[OF assms(3,2), of a i] by (simp add: landed_def atRest_def)

section \<open>A completed rotation permutes the grid (main.js)\<close>

lemma rotateSliceRun_grid:
  assumes "atRest st" and "validMove a i d" and "completes e0 es"
  shows "mset (map userData (smallCubes (rotateSliceRun a i d r e0 es st))) =
           mset (map userData (smallCubes st)) \<and>
         distinct (map userData (smallCubes (rotateSliceRun a i d r e0 es st))) \<and>
         set (map userData (smallCubes (rotateSliceRun a i d r e0 es st))) = shell \<and>
         length (smallCubes (rotateSliceRun a i d r e0 es st)) = length (smallCubes st) \<and>
         (\<forall>j < length (smallCubes st).
            if inSlice a i (userData (smallCubes st ! j))
            then inSlice a i (userData (smallCubes (rotateSliceRun a i d r e0 es st) ! j))
            else smallCubes (rotateSliceRun a i d r e0 es st) ! j = smallCubes st ! j) \<and>
         \<not> isAnimating (rotateSliceRun a i d r e0 es st) \<and>
         atRest (rotateSliceRun a i d r e0 es st)"
proof -
  let ?st' = "rotateSliceRun a i d r e0 es st"
  from assms(1) have idle: "\<not> isAnimating st" and og: "onGrid (smallCubes st)"
    by (simp_all add: atRest_def)
  from assms(2) have d: "d = 1 \<or> d = - 1" by (simp add: validMove_def)
  have l: "landed a i d (smallCubes st) ?st'"
    using idle assms(3) by (rule rotateSliceRun_landed)
  then have cs: "smallCubes ?st' = turnSlice a i d (smallCubes st)" by (simp add: landed_def)
  have rest: "atRest ?st'" using l og d by (rule landed_atRest)
  have pos: "list_all (\<lambda>c. position c = gridPosition (userData c)) (smallCubes st)"
    using og by (simp add: onGrid_def)
  have "\<forall>j < length (smallCubes st).
            if inSlice a i (userData (smallCubes st ! j))
            then inSlice a i (userData (smallCubes ?st' ! j))
            else smallCubes ?st' ! j = smallCubes st ! j"
    using pos d by (auto simp: cs turnSlice_nth turnCube_rest turnGrid_inSlice list_all_length)
  moreover have "mset (map userData (smallCubes ?st')) = mset (map userData (smallCubes st))"
    unfolding cs using d og by (rule turnSlice_mset)
  moreover have "length (smallCubes ?st') = length (smallCubes st)"
    by (simp add: cs)
  ultimately show ?thesis using rest by (simp add: atRest_def onGrid_def)
qed

section \<open>The second variant: frames and the grid\<close>

lemma completeEachB_length [simp]: "length (completeEachB rg is cs) = length cs"
  by (induction "is" arbitrary: cs) simp_all

lemma completeEachB_nth:
  "distinct is \<Longrightarrow> \<forall>i\<in>set is. i < length cs \<Longrightarrow>
   completeEachB rg is cs ! j = (if j \<in> set is then completeCubeB rg (cs ! j) else cs ! j)"
proof (induction "is" arbitrary: cs)
  case Nil
  then show ?case by simp
next
  case (Cons i "is")
  then show ?case by (auto simp: nth_list_update)
qed

lemma completeEachB_slice:
  "completeEachB rg (sliceCubesB (sliceAnimationB a i d cs)) cs =
     map (\<lambda>c. if inSlice a i (userDataB c) then completeCubeB rg c else c) cs"
proof (rule nth_equalityI)
  show "length (completeEachB rg (sliceCubesB (sliceAnimationB a i d cs)) cs) =
        length (map (\<lambda>c. if inSlice a i (userDataB c) then completeCubeB rg c else c) cs)"
    by simp
next
  fix j assume "j < length (completeEachB rg (sliceCubesB (sliceAnimationB a i d cs)) cs)"
  then have j: "j < length cs" by simp
  have "completeEachB rg (sliceCubesB (sliceAnimationB a i d cs)) cs ! j =
          (if j \<in> set (sliceCubesB (sliceAnimationB a i d cs)) then completeCubeB rg (cs ! j) else cs ! j)"
    by (rule completeEachB_nth) (auto simp: sliceAnimationB_def)
  then show "completeEachB rg (sliceCubesB (sliceAnimationB a i d cs)) cs ! j =
        map (\<lambda>c. if inSlice a i (userDataB c) then completeCubeB rg c else c) cs ! j"
    using j by (simp add: sliceAnimationB_def)
qed

lemma setAxisRotation_zero:
  "setAxisRotation a 0 e = Euler 0 0 0 \<Longrightarrow> setAxisRotation a v e = axisEuler a v"
  by (cases a; cases e) (simp_all add: setAxisRotation_def axisEuler_def)

lemma setAxisRotation_idem [simp]:
  "setAxisRotation a v (setAxisRotation a w e) = setAxisRotation a v e"
  by (cases a) (simp_all add: setAxisRotation_def)

lemma easeInOutCubic_1: "easeInOutCubic 1 = 1"
  by (simp add: easeInOutCubic_def)

lemma rotateSliceB_unfold:
  "\<not> isAnimatingB st \<Longrightarrow>
   rotateSliceB a i d e st =
     animateB (sliceAnimationB a i d (smallCubesB st)) e (st\<lparr>isAnimatingB := True\<rparr>)"
  by (simp add: rotateSliceB_def sliceAnimationB_def Let_def)

lemma animateB_early:
  assumes "e < durationB"
    "smallCubesB s = cs0" "setAxisRotation a 0 (rotationGroup_rotation s) = Euler 0 0 0"
    "isAnimatingB s"
  shows "inFlightB a i d cs0 (fst (animateB (sliceAnimationB a i d cs0) e s)) \<and>
         \<not> snd (animateB (sliceAnimationB a i d cs0) e s)"
proof -
  have p: "min (e / durationB) 1 < 1" using assms(1) by (simp add: durationB_def)
  show ?thesis
    using p assms(2-4)
    by (simp add: animateB_def Let_def inFlightB_def sliceAnimationB_def)
qed

lemma animateB_late:
  assumes "durationB \<le> e"
    "smallCubesB s = cs0" "setAxisRotation a 0 (rotationGroup_rotation s) = Euler 0 0 0"
  shows "landedB a i d cs0 (fst (animateB (sliceAnimationB a i d cs0) e s)) \<and>
         snd (animateB (sliceAnimationB a i d cs0) e s)"
proof -
  have p: "min (e / durationB) 1 = 1" using assms(1) by (simp add: durationB_def)
  note rg = setAxisRotation_zero[OF assms(3)]
  have an: "axisB (sliceAnimationB a i d cs0) = a"
    "targetRotationB (sliceAnimationB a i d cs0) = pi / 2 * real_of_int d"
    by (simp_all add: sliceAnimationB_def)
  show ?thesis
    using assms(2)
    by (simp add: animateB_def Let_def p easeInOutCubic_1 an rg landedB_def turnSliceB_def
          turnCubeB_def completeEachB_slice)
qed

lemma frameB_idle: "pendingFrameB s = None \<Longrightarrow> frameB e s = s"
  by (simp add: frameB_def)

lemma frameB_inFlight:
  assumes "inFlightB a i d cs0 s"
  shows "(e < durationB \<longrightarrow> inFlightB a i d cs0 (frameB e s)) \<and>
         (durationB \<le> e \<longrightarrow> landedB a i d cs0 (frameB e s))"
  using assms animateB_early[of e s cs0 a i d] animateB_late[of e s cs0 a i d]
  by (auto simp: frameB_def inFlightB_def)

lemma framesB_Nil [simp]: "framesB s [] = s"
  by (simp add: framesB_def)

lemma framesB_Cons [simp]: "framesB s (e # es) = framesB (frameB e s) es"
  by (simp add: framesB_def)

lemma framesB_idle: "pendingFrameB s = None \<Longrightarrow> framesB s es = s"
  by (induction es) (simp_all add: frameB_idle)

lemma framesB_landed:
  "inFlightB a i d cs0 s \<Longrightarrow> \<exists>e\<in>set es. durationB \<le> e \<Longrightarrow> landedB a i d cs0 (framesB s es)"
proof (induction es arbitrary: s)
  case Nil
  then show ?case by simp
next
  case (Cons e es)
  show ?case
  proof (cases "durationB \<le> e")
    case True
    then have l: "landedB a i d cs0 (frameB e s)" using Cons.prems(1) frameB_inFlight by blast
    then have "pendingFrameB (frameB e s) = None" by (simp add: landedB_def)
    then show ?thesis using l by (simp add: framesB_idle)
  next
    case False
    then have "inFlightB a i d cs0 (frameB e s)" using Cons.prems(1) frameB_inFlight[of a i d cs0 s e] by simp
    moreover have "\<exists>e\<in>set es. durationB \<le> e" using Cons.prems(2) False by auto
    ultimately show ?thesis using Cons.IH by simp
  qed
qed

lemma completesB_iff: "completesB e0 es \<longleftrightarrow> durationB \<le> e0 \<or> (\<exists>e\<in>set es. durationB \<le> e)"
  by (simp add: completesB_def list_ex_iff)

lemma rotateSliceRunB_landed:
  assumes "\<not> isAnimatingB st" "rotationGroup_rotation st = Euler 0 0 0" "completesB e0 es"
  shows "landedB a i d (smallCubesB st) (rotateSliceRunB a i d e0 es st)"
proof -
  have z: "setAxisRotation a 0 (rotationGroup_rotation (st\<lparr>isAnimatingB := True\<rparr>)) = Euler 0 0 0"
    using assms(2) by (cases a) (simp_all add: setAxisRotation_def)
  show ?thesis
  proof (cases "durationB \<le> e0")
    case True
    then have "landedB a i d (smallCubesB st) (fst (rotateSliceB a i d e0 st))"
      using animateB_late[OF True _ z, of "smallCubesB st" i d]
      by (simp add: rotateSliceB_unfold[OF assms(1)])
    then show ?thesis by (simp add: rotateSliceRunB_def framesB_idle landedB_def)
  next
    case False
    then have "inFlightB a i d (smallCubesB st) (fst (rotateSliceB a i d e0 st))"
      using animateB_early[OF _ _ z, of e0 "smallCubesB st" i d]
      by (simp add: rotateSliceB_unfold[OF assms(1)])
    moreover have "\<exists>e\<in>set es. durationB \<le> e" using assms(3) False by (simp add: completesB_iff)
    ultimately show ?thesis unfolding rotateSliceRunB_def by (rule framesB_landed)
  qed
qed

lemma setFromEuler_axisEuler: "setFromEuler (axisEuler a v) = setFromAxisAngle (axisVector a) v"
  by (cases a) (simp_all add: axisEuler_def setAxisRotation_def setFromEuler_def setFromAxisAngle_def
      axisVector_def Let_def)

lemma applyEuler_quarterTurn:
  "applyEuler p (axisEuler a ((pi / 2) * real_of_int d)) = applyQuaternion p (quarterTurn a d)"
  unfolding applyEuler_def setFromEuler_axisEuler quarterTurn_def by (rule refl)

lemma Math_round_grid1:
  "Math_round ((real_of_int n - offset) * (SEGMENT_SIZE + GAP) / (SEGMENT_SIZE + GAP) + 1) = n"
proof -
  have "(real_of_int n - offset) * (SEGMENT_SIZE + GAP) / (SEGMENT_SIZE + GAP) + 1 = real_of_int n"
    using spacing_nz by (simp add: offset_1)
  then show ?thesis by (simp only: Math_round_of_int)
qed

lemma turnCubeB_rest:
  assumes "d = 1 \<or> d = - 1" "positionB c = gridPosition (userDataB c)"
  shows "userDataB (turnCubeB a d c) = turnGrid a d (userDataB c) \<and>
         positionB (turnCubeB a d c) = gridPosition (turnGrid a d (userDataB c))"
proof -
  have p: "applyEuler (positionB c) (axisEuler a ((pi / 2) * real_of_int d)) =
           gridPosition (turnGrid a d (userDataB c))"
    unfolding applyEuler_quarterTurn assms(2)
    by (rule applyQuaternion_quarterTurn[OF assms(1)])
  show ?thesis
    unfolding turnCubeB_def completeCubeB_def Let_def p
    by (cases "turnGrid a d (userDataB c)")
       (simp add: gridPosition_def spacing_nz offset_1 Math_round_of_int)
qed

lemma turnCubeB_rotation:
  "rotationB (turnCubeB a d c) =
     Euler (ex (rotationB c) + ex (axisEuler a ((pi / 2) * real_of_int d)))
           (ey (rotationB c) + ey (axisEuler a ((pi / 2) * real_of_int d)))
           (ez (rotationB c) + ez (axisEuler a ((pi / 2) * real_of_int d)))"
  by (simp add: turnCubeB_def completeCubeB_def Let_def)

lemma turnSliceB_userData:
  assumes "d = 1 \<or> d = - 1" "list_all (\<lambda>c. positionB c = gridPosition (userDataB c)) cs"
  shows "map userDataB (turnSliceB a i d cs) = map (turnIf a i d) (map userDataB cs)"
  using assms by (auto simp: turnSliceB_def turnIf_def turnCubeB_rest list_all_iff)

lemma turnSliceB_onGrid:
  assumes "d = 1 \<or> d = - 1" "onGridB cs"
  shows "onGridB (turnSliceB a i d cs)"
proof -
  from assms(2) have dist: "distinct (map userDataB cs)" and sh: "set (map userDataB cs) = shell"
    and pos: "list_all (\<lambda>c. positionB c = gridPosition (userDataB c)) cs"
    by (simp_all add: onGridB_def)
  have ud: "map userDataB (turnSliceB a i d cs) = map (turnIf a i d) (map userDataB cs)"
    using assms(1) pos by (rule turnSliceB_userData)
  have "distinct (map (turnIf a i d) (map userDataB cs))"
    using dist turnIf_inj[OF assms(1)] by (simp add: distinct_map inj_on_def inj_def)
  moreover have "set (map (turnIf a i d) (map userDataB cs)) = shell"
    using sh turnIf_image_shell[OF assms(1), of a i] by (metis set_map)
  moreover have "list_all (\<lambda>c. positionB c = gridPosition (userDataB c)) (turnSliceB a i d cs)"
    using pos assms(1) by (auto simp: turnSliceB_def turnCubeB_rest list_all_iff)
  ultimately show ?thesis by (simp add: onGridB_def ud)
qed

lemma turnSliceB_nth:
  "j < length cs \<Longrightarrow>
   turnSliceB a i d cs ! j =
     (if inSlice a i (userDataB (cs ! j)) then turnCubeB a d (cs ! j) else cs ! j)"
  by (simp add: turnSliceB_def)

lemma turnSliceB_length [simp]: "length (turnSliceB a i d cs) = length cs"
  by (simp add: turnSliceB_def)

lemma buildCubesB_list:
  "buildCubesB =
     [newCubeB 0 0 0, newCubeB 0 0 1, newCubeB 0 0 2, newCubeB 0 1 0, newCubeB 0 1 1,
      newCubeB 0 1 2, newCubeB 0 2 0, newCubeB 0 2 1, newCubeB 0 2 2,
      newCubeB 1 0 0, newCubeB 1 0 1, newCubeB 1 0 2, newCubeB 1 1 0, newCubeB 1 1 2,
      newCubeB 1 2 0, newCubeB 1 2 1, newCubeB 1 2 2,
      newCubeB 2 0 0, newCubeB 2 0 1, newCubeB 2 0 2, newCubeB 2 1 0, newCubeB 2 1 1,
      newCubeB 2 1 2, newCubeB 2 2 0, newCubeB 2 2 1, newCubeB 2 2 2]"
  by (simp add: buildCubesB_def SEGMENTS_def upto_0_2 isEdge_def)

lemma userData_buildCubesB: "map userDataB buildCubesB = map userData buildCubes"
  by (simp add: buildCubesB_list buildCubes_list newCube_def newCubeB_def)

lemma buildCubesB_onGrid: "onGridB buildCubesB"
proof -
  have "list_all (\<lambda>c. positionB c = gridPosition (userDataB c)) buildCubesB"
    by (simp add: buildCubesB_list newCubeB_def)
  then show ?thesis
    using buildCubes_onGrid by (simp add: onGridB_def onGrid_def userData_buildCubesB)
qed

lemma atRestB_initialStateB: "atRestB initialStateB"
  by (simp add: atRestB_def initialStateB_def buildCubesB_onGrid)

lemma landedB_atRestB:
  assumes "landedB a i d cs0 s" "onGridB cs0" "d = 1 \<or> d = - 1"
  shows "atRestB s"
  using assms turnSliceB_onGrid[OF assms(3,2), of a i] by (simp add: landedB_def atRestB_def)

lemma rotateSliceRunB_grid:
  assumes "atRestB st" and "validMove a i d" and "completesB e0 es"
  shows "mset (map userDataB (smallCubesB (rotateSliceRunB a i d e0 es st))) =
           mset (map userDataB (smallCubesB st)) \<and>
         distinct (map userDataB (smallCubesB (rotateSliceRunB a i d e0 es st))) \<and>
         set (map userDataB (smallCubesB (rotateSliceRunB a i d e0 es st))) = shell \<and>
         length (smallCubesB (rotateSliceRunB a i d e0 es st)) = length (smallCubesB st) \<and>
         (\<forall>j < length (smallCubesB st).
            if inSlice a i (userDataB (smallCubesB st ! j))
            then inSlice a i (userDataB (smallCubesB (rotateSliceRunB a i d e0 es st) ! j))
            else smallCubesB (rotateSliceRunB a i d e0 es st) ! j = smallCubesB st ! j) \<and>
         \<not> isAnimatingB (rotateSliceRunB a i d e0 es st) \<and>
         atRestB (rotateSliceRunB a i d e0 es st)"
proof -
  let ?st' = "rotateSliceRunB a i d e0 es st"
  from assms(1) have idle: "\<not> isAnimatingB st" and og: "onGridB (smallCubesB st)"
    and rg: "rotationGroup_rotation st = Euler 0 0 0"
    by (simp_all add: atRestB_def)
  from assms(2) have d: "d = 1 \<or> d = - 1" by (simp add: validMove_def)
  have l: "landedB a i d (smallCubesB st) ?st'"
    using idle rg assms(3) by (rule rotateSliceRunB_landed)
  then have cs: "smallCubesB ?st' = turnSliceB a i d (smallCubesB st)" by (simp add: landedB_def)
  have rest: "atRestB ?st'" using l og d by (rule landedB_atRestB)
  have pos: "list_all (\<lambda>c. positionB c = gridPosition (userDataB c)) (smallCubesB st)"
    using og by (simp add: onGridB_def)
  have "\<forall>j < length (smallCubesB st).
            if inSlice a i (userDataB (smallCubesB st ! j))
            then inSlice a i (userDataB (smallCubesB ?st' ! j))
            else smallCubesB ?st' ! j = smallCubesB st ! j"
    using pos d by (auto simp: cs turnSliceB_nth turnCubeB_rest turnGrid_inSlice list_all_length)
  moreover have "mset (map userDataB (smallCubesB ?st')) = mset (map userDataB (smallCubesB st))"
  proof -
    have "onGridB (smallCubesB ?st')" using rest by (simp add: atRestB_def)
    then have "distinct (map userDataB (smallCubesB ?st'))"
      "set (map userDataB (smallCubesB ?st')) = set (map userDataB (smallCubesB st))"
      "distinct (map userDataB (smallCubesB st))"
      using og by (simp_all add: onGridB_def)
    then show ?thesis by (simp only: set_eq_iff_mset_eq_distinct)
  qed
  moreover have "length (smallCubesB ?st') = length (smallCubesB st)"
    by (simp add: cs)
  ultimately show ?thesis using rest by (simp add: atRestB_def onGridB_def)
qed

section \<open>Claims on the grid\<close>

text \<open>
  Claim C1. For every valid move applied from a rest state, a completed \<open>rotateSlice\<close>
  leaves the multiset of grid coordinates unchanged: the coordinates stay unique and are
  again exactly the shell cells (none lost, duplicated or outside 0..2), every cube of the
  slice stays in the slice, every other cube is untouched, and \<open>isAnimating\<close> is cleared.
  This holds in both source files.
\<close>

theorem rotateSlice_permutes_grid:
  assumes "validMove a i d"
  shows "(atRest st \<and> completes e0 es \<longrightarrow>
           mset (map userData (smallCubes (rotateSliceRun a i d r e0 es st))) =
             mset (map userData (smallCubes st)) \<and>
           distinct (map userData (smallCubes (rotateSliceRun a i d r e0 es st))) \<and>
           set (map userData (smallCubes (rotateSliceRun a i d r e0 es st))) = shell \<and>
           length (smallCubes (rotateSliceRun a i d r e0 es st)) = length (smallCubes st) \<and>
           (\<forall>j < length (smallCubes st).
              if inSlice a i (userData (smallCubes st ! j))
              then inSlice a i (userData (smallCubes (rotateSliceRun a i d r e0 es st) ! j))
              else smallCubes (rotateSliceRun a i d r e0 es st) ! j = smallCubes st ! j) \<and>
           \<not> isAnimating (rotateSliceRun a i d r e0 es st) \<and>
           atRest (rotateSliceRun a i d r e0 es st)) \<and>
         (atRestB sb \<and> completesB eb0 ebs \<longrightarrow>
           mset (map userDataB (smallCubesB (rotateSliceRunB a i d eb0 ebs sb))) =
             mset (map userDataB (smallCubesB sb)) \<and>
           distinct (map userDataB (smallCubesB (rotateSliceRunB a i d eb0 ebs sb))) \<and>
           set (map userDataB (smallCubesB (rotateSliceRunB a i d eb0 ebs sb))) = shell \<and>
           length (smallCubesB (rotateSliceRunB a i d eb0 ebs sb)) = length (smallCubesB sb) \<and>
           (\<forall>j < length (smallCubesB sb).
              if inSlice a i (userDataB (smallCubesB sb ! j))
              then inSlice a i (userDataB (smallCubesB (rotateSliceRunB a i d eb0 ebs sb) ! j))
              else smallCubesB (rotateSliceRunB a i d eb0 ebs sb) ! j = smallCubesB sb ! j) \<and>
           \<not> isAnimatingB (rotateSliceRunB a i d eb0 ebs sb) \<and>
           atRestB (rotateSliceRunB a i d eb0 ebs sb))"
  using rotateSliceRun_grid[OF _ assms, of st e0 es r]
    rotateSliceRunB_grid[OF _ assms, of sb eb0 ebs]
  by blast

theorem rotateSlice_permutes_grid_witness:
  "validMove AxisY 1 (- 1) \<and> atRest initialState \<and> completes 0 [120, 240, 360] \<and>
   atRestB initialStateB \<and> completesB 0 [300, 600] \<and>
   mset (map userData (smallCubes (rotateSliceRun AxisY 1 (- 1) True 0 [120, 240, 360]
     initialState))) = mset (map userData (smallCubes initialState)) \<and>
   \<not> isAnimating (rotateSliceRun AxisY 1 (- 1) True 0 [120, 240, 360] initialState) \<and>
   mset (map userDataB (smallCubesB (rotateSliceRunB AxisY 1 (- 1) 0 [300, 600]
     initialStateB))) = mset (map userDataB (smallCubesB initialStateB)) \<and>
   \<not> isAnimatingB (rotateSliceRunB AxisY 1 (- 1) 0 [300, 600] initialStateB)"
proof -
  have c: "completes 0 [120, 240, 360]" by (simp add: completes_def duration_def)
  have cb: "completesB 0 [300, 600]" by (simp add: completesB_def durationB_def)
  have v: "validMove AxisY 1 (- 1)" by (simp add: validMove_def)
  show ?thesis
    using rotateSlice_permutes_grid[OF v, of initialState 0 "[120, 240, 360]" True
        initialStateB 0 "[300, 600]"]
      atRest_initialState atRestB_initialStateB v c cb
    by simp
qed

text \<open>
  Claim C3. A call of \<open>rotateSlice\<close> made while a rotation is in flight resolves at once
  and changes nothing: the state, with the move history and every cube, is the one the
  rotation in flight has produced, and the events that follow act on it as if the call
  had not been made. This holds in both source files.
\<close>

theorem rotateSlice_reentrant:
  "(isAnimating st \<longrightarrow>
      rotateSlice a i d r e st = (st, True) \<and>
      run (fst (rotateSlice a i d r e st)) evs = run st evs) \<and>
   (isAnimatingB sb \<longrightarrow>
      rotateSliceB a i d e sb = (sb, True) \<and>
      framesB (fst (rotateSliceB a i d e sb)) es = framesB sb es)"
  by (simp add: rotateSlice_def rotateSliceB_def)

theorem rotateSlice_reentrant_witness:
  "isAnimating (fst (rotateSlice AxisX 2 1 True 0 initialState)) \<and>
   rotateSlice AxisY 0 (- 1) True 5 (fst (rotateSlice AxisX 2 1 True 0 initialState)) =
     (fst (rotateSlice AxisX 2 1 True 0 initialState), True) \<and>
   isAnimatingB (fst (rotateSliceB AxisX 2 1 0 initialStateB)) \<and>
   rotateSliceB AxisY 0 (- 1) 5 (fst (rotateSliceB AxisX 2 1 0 initialStateB)) =
     (fst (rotateSliceB AxisX 2 1 0 initialStateB), True)"
proof -
  have idle: "\<not> isAnimating initialState" by (simp add: initialState_def)
  have e: "(0::real) < duration" by (simp add: duration_def)
  have a: "isAnimating (fst (rotateSlice AxisX 2 1 True 0 initialState))"
    using rotateSlice_early[OF idle e, of AxisX 2 1 True] by (simp add: inFlight_def)
  have b: "isAnimatingB (fst (rotateSliceB AxisX 2 1 0 initialStateB))"
    by (simp add: rotateSliceB_def initialStateB_def animateB_def Let_def durationB_def)
  show ?thesis
    using rotateSlice_reentrant[of "fst (rotateSlice AxisX 2 1 True 0 initialState)"
        AxisY 0 "- 1" True 5 "[]" "fst (rotateSliceB AxisX 2 1 0 initialStateB)" "[]"] a b
    by simp
qed

lemma rotate_x2_grid:
  assumes "completes e0 es" "j < length buildCubes" "gx (userData (buildCubes ! j)) = 2"
  shows "userData (smallCubes (rotateSliceRun AxisX 2 1 r e0 es initialState) ! j) =
           GridPos 2 (2 - gz (userData (buildCubes ! j))) (gy (userData (buildCubes ! j)))"
proof -
  have idle: "\<not> isAnimating initialState" by (simp add: initialState_def)
  have "landed AxisX 2 1 (smallCubes initialState)
          (rotateSliceRun AxisX 2 1 r e0 es initialState)"
    using idle assms(1) by (rule rotateSliceRun_landed)
  then have cs: "smallCubes (rotateSliceRun AxisX 2 1 r e0 es initialState) =
      turnSlice AxisX 2 1 buildCubes"
    by (simp add: landed_def initialState_def)
  have "list_all (\<lambda>c. position c = gridPosition (userData c)) buildCubes"
    using buildCubes_onGrid by (simp add: onGrid_def)
  then have p: "position (buildCubes ! j) = gridPosition (userData (buildCubes ! j))"
    using assms(2) by (simp add: list_all_length)
  have "userData (turnCube AxisX 1 (buildCubes ! j)) = turnGrid AxisX 1 (userData (buildCubes ! j))"
    using turnCube_rest[OF _ p, of 1 AxisX] by simp
  then show ?thesis
    using assms(2,3) by (simp add: cs turnSlice_nth inSlice_def turnGrid_def)
qed

lemma nth_buildCubes_x2:
  "userData (buildCubes ! 17) = GridPos 2 0 0" "userData (buildCubes ! 23) = GridPos 2 2 0"
  by (simp_all add: buildCubes_list newCube_def)

text \<open>
  Claim C4, as the code has it. Starting from the initial solved grid, a completed
  \<open>rotateSlice\<close> of the slice x = 2 with direction +1 moves each of the nine cubes with
  x = 2 from (2, y, z) to (2, 2 - z, y), the quarter turn about the x axis by +90 degrees
  in the right-handed convention of the quaternion; the cube at (2,0,0) ends at (2,2,0)
  and the cube at (2,2,0) ends at (2,2,2).
\<close>

theorem rotate_x2_positions:
  assumes "completes e0 es"
  shows "(\<forall>j < length buildCubes. gx (userData (buildCubes ! j)) = 2 \<longrightarrow>
            userData (smallCubes (rotateSliceRun AxisX 2 1 r e0 es initialState) ! j) =
              GridPos 2 (2 - gz (userData (buildCubes ! j))) (gy (userData (buildCubes ! j)))) \<and>
         length (filter (\<lambda>c. gx (userData c) = 2) buildCubes) = 9 \<and>
         userData (buildCubes ! 17) = GridPos 2 0 0 \<and>
         userData (smallCubes (rotateSliceRun AxisX 2 1 r e0 es initialState) ! 17) =
           GridPos 2 2 0 \<and>
         userData (buildCubes ! 23) = GridPos 2 2 0 \<and>
         userData (smallCubes (rotateSliceRun AxisX 2 1 r e0 es initialState) ! 23) =
           GridPos 2 2 2"
proof -
  have n: "length (filter (\<lambda>c. gx (userData c) = 2) buildCubes) = 9"
    by (simp add: buildCubes_list newCube_def)
  have a: "userData (smallCubes (rotateSliceRun AxisX 2 1 r e0 es initialState) ! 17) =
           GridPos 2 2 0"
    using rotate_x2_grid[OF assms, of 17 r] by (simp add: nth_buildCubes_x2 length_buildCubes)
  have b: "userData (smallCubes (rotateSliceRun AxisX 2 1 r e0 es initialState) ! 23) =
           GridPos 2 2 2"
    using rotate_x2_grid[OF assms, of 23 r] by (simp add: nth_buildCubes_x2 length_buildCubes)
  show ?thesis
    using rotate_x2_grid[OF assms] n a b by (simp add: nth_buildCubes_x2)
qed

theorem rotate_x2_positions_witness:
  "completes 0 [175, 350] \<and>
   userData (smallCubes (rotateSliceRun AxisX 2 1 True 0 [175, 350] initialState) ! 17) =
     GridPos 2 2 0 \<and>
   userData (smallCubes (rotateSliceRun AxisX 2 1 True 0 [175, 350] initialState) ! 23) =
     GridPos 2 2 2"
proof -
  have c: "completes 0 [175, 350]" by (simp add: completes_def duration_def)
  show ?thesis using rotate_x2_positions[OF c, of True] c by simp
qed

theorem rotate_x2_counterexample:
  "userData (buildCubes ! 17) = GridPos 2 0 0 \<and>
   userData (smallCubes (rotateSliceRun AxisX 2 1 True 0 [350] initialState) ! 17) \<noteq>
     GridPos 2 0 2 \<and>
   userData (buildCubes ! 23) = GridPos 2 2 0 \<and>
   userData (smallCubes (rotateSliceRun AxisX 2 1 True 0 [350] initialState) ! 23) \<noteq>
     GridPos 2 0 0"
proof -
  have c: "completes 0 [350]" by (simp add: completes_def duration_def)
  show ?thesis
    using rotate_x2_grid[OF c, of 17 True] rotate_x2_grid[OF c, of 23 True]
    by (simp add: nth_buildCubes_x2 length_buildCubes)
qed

section \<open>Solved detection\<close>

lemma foldl_pushDot:
  "foldl pushDot fd ds =
     \<lparr>plusX = plusX fd @ faceGroup PlusX ds, minusX = minusX fd @ faceGroup MinusX ds,
      plusY = plusY fd @ faceGroup PlusY ds, minusY = minusY fd @ faceGroup MinusY ds,
      plusZ = plusZ fd @ faceGroup PlusZ ds, minusZ = minusZ fd @ faceGroup MinusZ ds\<rparr>"
proof (induction ds arbitrary: fd)
  case Nil
  then show ?case by (simp add: faceGroup_def)
next
  case (Cons d ds)
  show ?case
    unfolding foldl_Cons Cons.IH
    by (simp add: pushDot_def faceGroup_def classify_def)
qed

lemma collectDots_groups:
  "collectDots dots =
     \<lparr>plusX = faceGroup PlusX dots, minusX = faceGroup MinusX dots,
      plusY = faceGroup PlusY dots, minusY = faceGroup MinusY dots,
      plusZ = faceGroup PlusZ dots, minusZ = faceGroup MinusZ dots\<rparr>"
  by (simp add: collectDots_def foldl_pushDot)

lemma faceOk_iff: "faceOk cs \<longleftrightarrow> length cs = 9 \<and> sameColor cs"
proof (cases "length cs = 9")
  case True
  then have "cs \<noteq> []" by auto
  then have "cs ! 0 \<in> set cs" by simp
  then have "list_all (\<lambda>c. c = cs ! 0) cs \<longleftrightarrow> sameColor cs"
    unfolding sameColor_def list_all_iff by metis
  then show ?thesis using True by (simp add: faceOk_def)
next
  case False
  then show ?thesis by (simp add: faceOk_def)
qed

lemma checkIfSolved_faces:
  "checkIfSolved dots \<longleftrightarrow>
     faceOk (faceGroup PlusX dots) \<and> faceOk (faceGroup MinusX dots) \<and>
     faceOk (faceGroup PlusY dots) \<and> faceOk (faceGroup MinusY dots) \<and>
     faceOk (faceGroup PlusZ dots) \<and> faceOk (faceGroup MinusZ dots)"
  by (simp add: checkIfSolved_def collectDots_groups)

lemma all_faces:
  "(\<forall>f. P f) \<longleftrightarrow> P PlusX \<and> P MinusX \<and> P PlusY \<and> P MinusY \<and> P PlusZ \<and> P MinusZ"
  by (metis face.exhaust)

lemma solvedDots_groups:
  "faceGroup PlusX solvedDots = replicate 9 255"
  "faceGroup MinusX solvedDots = replicate 9 8900331"
  "faceGroup PlusY solvedDots = replicate 9 16711680"
  "faceGroup MinusY solvedDots = replicate 9 16747520"
  "faceGroup PlusZ solvedDots = replicate 9 16763904"
  "faceGroup MinusZ solvedDots = replicate 9 16777215"
  by (simp_all add: solvedDots_def faceGroup_def classify_def threshold_def CUBE_SIZE_def)

lemma solvedDots_solved: "checkIfSolved solvedDots"
  by (simp add: checkIfSolved_faces faceOk_iff solvedDots_groups sameColor_def)

text \<open>
  Claim C7. \<open>checkIfSolved\<close> returns true if and only if, with every dot counted on the
  first direction (in the order +x, -x, +y, -y, +z, -z) along which its world position lies
  beyond the threshold, each of the six face groups has exactly nine dots and all dots of
  a group carry the same color tag; otherwise it returns false.
\<close>

theorem checkIfSolved_iff:
  "checkIfSolved dots \<longleftrightarrow>
     (\<forall>f. length (faceGroup f dots) = 9 \<and> sameColor (faceGroup f dots))"
  unfolding all_faces by (simp add: checkIfSolved_faces faceOk_iff)

theorem checkIfSolved_iff_witness:
  "checkIfSolved solvedDots \<and> \<not> checkIfSolved (tl solvedDots) \<and>
   \<not> checkIfSolved (\<lparr>worldPos = Vector3 1 0 0, colorHex = 7\<rparr> # tl solvedDots)"
proof -
  have 1: "checkIfSolved solvedDots"
    unfolding checkIfSolved_iff all_faces by (simp add: solvedDots_groups sameColor_def)
  have t: "faceGroup PlusX (tl solvedDots) = replicate 8 255"
    by (simp add: solvedDots_def faceGroup_def classify_def threshold_def CUBE_SIZE_def)
  have 2: "\<not> checkIfSolved (tl solvedDots)"
    unfolding checkIfSolved_iff using t by (auto intro!: exI[of _ PlusX])
  have t': "faceGroup PlusX (\<lparr>worldPos = Vector3 1 0 0, colorHex = 7\<rparr> # tl solvedDots) =
              7 # replicate 8 255"
    by (simp add: solvedDots_def faceGroup_def classify_def threshold_def CUBE_SIZE_def)
  have 3: "\<not> checkIfSolved (\<lparr>worldPos = Vector3 1 0 0, colorHex = 7\<rparr> # tl solvedDots)"
    unfolding checkIfSolved_iff using t' by (auto intro!: exI[of _ PlusX] simp: sameColor_def)
  show ?thesis using 1 2 3 by simp
qed

section \<open>The dark-mode toggle\<close>

text \<open>
  Claim C8. A solved transition never fires on the first solved check after page load or
  after the previous toggle: with the latch \<open>hasBeenMixed\<close> unset, \<open>checkForSolve\<close> only
  sets the latch and returns false; with the latch set and \<open>checkIfSolved\<close> true it toggles
  \<open>isDarkMode\<close>, sets the dark-mode class and both post-processing passes to the new mode,
  applies the default material preset when the new mode is dark, resets the latch and
  returns true; with the latch set and the cube not solved nothing changes.
\<close>

theorem checkForSolve_latch:
  "(\<not> hasBeenMixed st \<longrightarrow> checkForSolve dots st = (st\<lparr>hasBeenMixed := True\<rparr>, False)) \<and>
   (hasBeenMixed st \<and> checkIfSolved dots \<longrightarrow>
      snd (checkForSolve dots st) \<and>
      isDarkMode (fst (checkForSolve dots st)) = (\<not> isDarkMode st) \<and>
      darkModeClass (fst (checkForSolve dots st)) = (\<not> isDarkMode st) \<and>
      bloomPass_enabled (fst (checkForSolve dots st)) = (\<not> isDarkMode st) \<and>
      chromaticPass_enabled (fst (checkForSolve dots st)) = (\<not> isDarkMode st) \<and>
      materialPreset (fst (checkForSolve dots st)) =
        (if isDarkMode st then materialPreset st else - 1) \<and>
      \<not> hasBeenMixed (fst (checkForSolve dots st))) \<and>
   (hasBeenMixed st \<and> \<not> checkIfSolved dots \<longrightarrow> checkForSolve dots st = (st, False)) \<and>
   \<not> snd (checkForSolve dots initialState) \<and>
   isDarkMode (fst (checkForSolve dots initialState)) = isDarkMode initialState \<and>
   (snd (checkForSolve dots st) \<longrightarrow>
      \<not> snd (checkForSolve dots' (fst (checkForSolve dots st))) \<and>
      isDarkMode (fst (checkForSolve dots' (fst (checkForSolve dots st)))) =
        isDarkMode (fst (checkForSolve dots st)))"
  by (auto simp: checkForSolve_def Let_def initialState_def)

theorem checkForSolve_latch_witness:
  "hasBeenMixed (initialState\<lparr>hasBeenMixed := True\<rparr>) \<and> checkIfSolved solvedDots \<and>
   snd (checkForSolve solvedDots (initialState\<lparr>hasBeenMixed := True\<rparr>)) \<and>
   isDarkMode (fst (checkForSolve solvedDots (initialState\<lparr>hasBeenMixed := True\<rparr>))) \<and>
   \<not> hasBeenMixed (fst (checkForSolve solvedDots (initialState\<lparr>hasBeenMixed := True\<rparr>))) \<and>
   \<not> snd (checkForSolve solvedDots
            (fst (checkForSolve solvedDots (initialState\<lparr>hasBeenMixed := True\<rparr>)))) \<and>
   \<not> snd (checkForSolve solvedDots initialState)"
proof -
  have m: "hasBeenMixed (initialState\<lparr>hasBeenMixed := True\<rparr>)" by simp
  have d: "\<not> isDarkMode (initialState\<lparr>hasBeenMixed := True\<rparr>)" by (simp add: initialState_def)
  show ?thesis
    using checkForSolve_latch[of "initialState\<lparr>hasBeenMixed := True\<rparr>" solvedDots solvedDots]
      solvedDots_solved m d
    by simp
qed

section \<open>Navigation: what every reachable state satisfies\<close>

lemma faceToMove_cases:
  assumes "faceToMove f = Some m"
  shows "(move_index m = 0 \<or> move_index m = 2) \<and>
         (move_direction m = 1 \<or> move_direction m = - 1)"
  using assms by (auto simp: faceToMove_def split: if_splits)

lemma turnGrid_centre:
  assumes "isFaceCentre g" "i = 0 \<or> i = 2" "inSlice a i g"
  shows "turnGrid a d g = g"
  using assms by (cases a) (auto simp: isFaceCentre_def inSlice_def turnGrid_def)

lemma turnSlice_centresHome:
  assumes "onGrid cs" "centresHome cs" "i = 0 \<or> i = 2" "d = 1 \<or> d = - 1"
  shows "centresHome (turnSlice a i d cs)"
proof -
  have pos: "list_all (\<lambda>c. position c = gridPosition (userData c)) cs"
    using assms(1) by (simp add: onGrid_def)
  have len: "length cs = length buildCubes" using assms(2) by (simp add: centresHome_def)
  have "userData (turnSlice a i d cs ! j) = userData (buildCubes ! j)"
    if j: "j < length buildCubes" and c: "isFaceCentre (userData (buildCubes ! j))" for j
  proof -
    have h: "userData (cs ! j) = userData (buildCubes ! j)"
      using assms(2) j c by (simp add: centresHome_def)
    have p: "position (cs ! j) = gridPosition (userData (cs ! j))"
      using pos j len by (simp add: list_all_length)
    show ?thesis
      using j len h c turnCube_rest[OF assms(4) p, of a]
        turnGrid_centre[OF _ assms(3), of "userData (cs ! j)" a d]
      by (auto simp: turnSlice_nth)
  qed
  then show ?thesis using len by (simp add: centresHome_def)
qed

lemma midTurn_centresHome:
  "midTurn a i cs0 cs \<Longrightarrow> centresHome cs0 \<Longrightarrow> centresHome cs"
  by (simp add: midTurn_def centresHome_def)

lemma checkForSolve_keeps:
  "smallCubes (fst (checkForSolve dots s)) = smallCubes s"
  "isAnimating (fst (checkForSolve dots s)) = isAnimating s"
  "pendingFrame (fst (checkForSolve dots s)) = pendingFrame s"
  "moveHistory (fst (checkForSolve dots s)) = moveHistory s"
  "isSolved (fst (checkForSolve dots s)) = isSolved s"
  "introComplete (fst (checkForSolve dots s)) = introComplete s"
  by (simp_all add: checkForSolve_def Let_def)

lemma solveTimeout_keeps:
  "smallCubes (solveTimeout dots s) = smallCubes s"
  "isAnimating (solveTimeout dots s) = isAnimating s"
  "pendingFrame (solveTimeout dots s) = pendingFrame s"
  "moveHistory (solveTimeout dots s) = moveHistory s"
  "isSolved (solveTimeout dots s) = isSolved s"
  "introComplete (solveTimeout dots s) = introComplete s"
  by (simp_all add: solveTimeout_def checkForSolve_keeps)

lemma navInv_landed:
  assumes "landed (move_axis m) (move_index m) (move_direction m) cs0 s"
    "faceToMove f = Some m" "onGrid cs0" "centresHome cs0"
    "introComplete s" "moveHistory s = []" "isSolved s"
  shows "navInv s"
proof -
  from faceToMove_cases[OF assms(2)] have i: "move_index m = 0 \<or> move_index m = 2"
    and d: "move_direction m = 1 \<or> move_direction m = - 1" by simp_all
  have "onGrid (smallCubes s)" "centresHome (smallCubes s)"
    using assms(1) turnSlice_onGrid[OF d assms(3)] turnSlice_centresHome[OF assms(3,4) i d]
    by (simp_all add: landed_def)
  then show ?thesis using assms by (simp add: navInv_def landed_def)
qed

lemma navInv_frame:
  assumes "navInv s"
  shows "navInv (frame e s)"
proof (cases "pendingFrame s")
  case None
  then show ?thesis using assms by (simp add: frame_idle)
next
  case (Some an)
  with assms obtain f m cs0 where fm: "faceToMove f = Some m" and og: "onGrid cs0"
    and ch: "centresHome cs0"
    and fl: "inFlight (move_axis m) (move_index m) (move_direction m) cs0 s"
    and base: "introComplete s" "moveHistory s = []" "isSolved s"
    by (auto simp: navInv_def)
  show ?thesis
  proof (cases "e < duration")
    case True
    then have "inFlight (move_axis m) (move_index m) (move_direction m) cs0 (frame e s)"
      using fl by (simp add: frame_inFlight_early)
    then show ?thesis using fm og ch base by (auto simp: navInv_def frame_keeps)
  next
    case False
    then have "landed (move_axis m) (move_index m) (move_direction m) cs0 (frame e s)"
      using fl by (simp add: frame_inFlight_late)
    then show ?thesis using fm og ch base by (auto intro!: navInv_landed simp: frame_keeps)
  qed
qed

lemma navInv_navigateToFace:
  assumes "navInv s"
  shows "navInv (navigateToFace f e s)"
proof (cases "isAnimating s")
  case True
  then show ?thesis using assms by (simp add: navigateToFace_def)
next
  case idle: False
  with assms have rest: "pendingFrame s = None" "onGrid (smallCubes s)"
      "centresHome (smallCubes s)"
    and base: "introComplete s" "moveHistory s = []" "isSolved s"
    by (auto simp: navInv_def inFlight_def)
  show ?thesis
  proof (cases "faceToMove f")
    case None
    then show ?thesis using idle rest base by (simp add: navigateToFace_def navInv_def)
  next
    case (Some m)
    let ?r = "rotateSlice (move_axis m) (move_index m) (move_direction m) False e s"
    have hist: "moveHistory (fst ?r) = []" "isSolved (fst ?r)"
      using rotateSlice_history[OF idle, of "move_axis m" "move_index m" "move_direction m"
          False e] base
      by (simp_all add: recorded_def)
    show ?thesis
    proof (cases "e < duration")
      case True
      from rotateSlice_early[OF idle True, of "move_axis m" "move_index m" "move_direction m"
          False]
      have fl: "inFlight (move_axis m) (move_index m) (move_direction m) (smallCubes s) (fst ?r)"
        and nr: "\<not> snd ?r" by simp_all
      have ic: "introComplete (fst ?r)"
        using base(1) by (simp add: rotateSlice_unfold[OF idle] animateSlice_def Let_def)
      have "navigateToFace f e s = (fst ?r)\<lparr>awaiting := Some f\<rparr>"
        using idle base(1) Some nr by (simp add: navigateToFace_def split_beta)
      moreover have "inFlight (move_axis m) (move_index m) (move_direction m) (smallCubes s)
          ((fst ?r)\<lparr>awaiting := Some f\<rparr>)"
        using fl by (simp add: inFlight_def)
      ultimately show ?thesis using Some rest hist ic by (auto simp: navInv_def)
    next
      case False
      then have late: "duration \<le> e" by simp
      note rl = rotateSlice_late[OF idle late, of "move_axis m" "move_index m"
          "move_direction m" False]
      have eq: "navigateToFace f e s = afterRotation f (fst ?r)"
        using idle base(1) Some rl by (simp add: navigateToFace_def)
      have l: "landed (move_axis m) (move_index m) (move_direction m) (smallCubes s) (fst ?r)"
        using rl by (simp add: landed_def)
      have ic: "introComplete (fst ?r)"
        using base(1) rl by simp
      show ?thesis
        unfolding eq
        by (rule navInv_landed[OF _ Some rest(2,3)]) (use l hist ic in \<open>simp_all add: landed_def\<close>)
    qed
  qed
qed

lemma navInv_solveTimeout: "navInv s \<Longrightarrow> navInv (solveTimeout dots s)"
  by (simp add: navInv_def solveTimeout_keeps inFlight_def)

lemma navInv_step: "navInv s \<Longrightarrow> navInv (step s ev)"
  by (cases ev) (simp_all add: navInv_frame navInv_navigateToFace navInv_solveTimeout)

lemma navInv_run: "navInv s \<Longrightarrow> navInv (run s evs)"
  by (induction evs arbitrary: s) (simp_all add: navInv_step)

lemma centresHome_buildCubes: "centresHome buildCubes"
  by (simp add: centresHome_def)

lemma navInv_initialState: "navInv initialState"
  by (simp add: navInv_def initialState_def buildCubes_onGrid centresHome_buildCubes)

lemma navInv_centres:
  assumes "navInv s" "j < length buildCubes" "isFaceCentre (userData (buildCubes ! j))"
  shows "userData (smallCubes s ! j) = userData (buildCubes ! j)"
proof -
  have "centresHome (smallCubes s)"
    using assms(1) by (auto simp: navInv_def inFlight_def dest: midTurn_centresHome)
  then show ?thesis using assms(2,3) by (simp add: centresHome_def)
qed

lemma animateSlice_sameCubes:
  assumes "sameCubes s s'"
  shows "sameCubes (fst (animateSlice an e s)) (fst (animateSlice an e s')) \<and>
         snd (animateSlice an e s) = snd (animateSlice an e s')"
  using assms by (simp add: animateSlice_def sameCubes_def Let_def)

lemma frame_sameCubes:
  assumes "sameCubes s s'"
  shows "sameCubes (frame e s) (frame e s')"
proof (cases "pendingFrame s")
  case None
  then show ?thesis using assms by (simp add: frame_def sameCubes_def)
next
  case (Some an)
  then have p': "pendingFrame s' = Some an" using assms by (simp add: sameCubes_def)
  have "sameCubes (fst (animateSlice an e s)) (fst (animateSlice an e s'))"
    and "snd (animateSlice an e s) = snd (animateSlice an e s')"
    using animateSlice_sameCubes[OF assms] by simp_all
  then show ?thesis
    using Some p' by (auto simp: frame_def sameCubes_def split_beta split: option.split)
qed

lemma run_frames_sameCubes:
  "sameCubes s s' \<Longrightarrow> sameCubes (run s (map Frame es)) (run s' (map Frame es))"
  by (induction es arbitrary: s s') (simp_all add: frame_sameCubes)

lemma rotateSlice_sameCubes:
  "sameCubes (fst (rotateSlice a i d r e st)) (fst (rotateSlice a i d r' e st)) \<and>
   snd (rotateSlice a i d r e st) = snd (rotateSlice a i d r' e st)"
proof (cases "isAnimating st")
  case True
  then show ?thesis by (simp add: rotateSlice_def sameCubes_def)
next
  case False
  have "sameCubes (recorded a i d r (st\<lparr>isAnimating := True\<rparr>))
          (recorded a i d r' (st\<lparr>isAnimating := True\<rparr>))"
    by (simp add: sameCubes_def)
  then show ?thesis
    unfolding rotateSlice_unfold[OF False] by (rule animateSlice_sameCubes)
qed

lemma navigateToFace_sameCubes:
  assumes "faceToMove f = Some m" "\<not> isAnimating st" "introComplete st"
  shows "sameCubes (navigateToFace f e st)
           (fst (rotateSlice (move_axis m) (move_index m) (move_direction m) r e st))"
proof -
  let ?r = "rotateSlice (move_axis m) (move_index m) (move_direction m) False e st"
  have "sameCubes (navigateToFace f e st) (fst ?r)"
    using assms by (simp add: navigateToFace_def sameCubes_def split_beta)
  moreover have "sameCubes (fst ?r)
      (fst (rotateSlice (move_axis m) (move_index m) (move_direction m) r e st))"
    using rotateSlice_sameCubes by simp
  ultimately show ?thesis by (simp add: sameCubes_def)
qed

text \<open>
  Claim C9. Every move reachable through face navigation turns an outer slice: for each
  face index 0..5 the \<open>faceToMove\<close> entry has slice index 0 or 2, never 1, so
  \<open>navigateToFace\<close> never turns a middle slice, and the six face-center cubes keep their
  grid coordinates in every state reached by clicks, animation frames and solve timeouts.
\<close>

theorem navigation_turns_outer_slices:
  "(\<forall>f < 6. \<exists>m. faceToMove f = Some m \<and> (move_index m = 0 \<or> move_index m = 2)) \<and>
   (\<forall>f m. faceToMove f = Some m \<longrightarrow> move_index m \<noteq> 1) \<and>
   (\<forall>evs j. j < length buildCubes \<and> isFaceCentre (userData (buildCubes ! j)) \<longrightarrow>
       userData (smallCubes (run initialState evs) ! j) = userData (buildCubes ! j))"
proof (intro conjI allI impI)
  fix f :: nat assume "f < 6"
  then have "f = 0 \<or> f = 1 \<or> f = 2 \<or> f = 3 \<or> f = 4 \<or> f = 5" by arith
  then show "\<exists>m. faceToMove f = Some m \<and> (move_index m = 0 \<or> move_index m = 2)"
    by (auto simp: faceToMove_def)
next
  fix f m assume "faceToMove f = Some m"
  then show "move_index m \<noteq> 1" using faceToMove_cases by fastforce
next
  fix evs j assume "j < length buildCubes \<and> isFaceCentre (userData (buildCubes ! j))"
  then show "userData (smallCubes (run initialState evs) ! j) = userData (buildCubes ! j)"
    using navInv_centres[OF navInv_run[OF navInv_initialState]] by simp
qed

theorem navigation_turns_outer_slices_witness:
  "(0::nat) < 6 \<and> (\<exists>m. faceToMove 0 = Some m \<and> (move_index m = 0 \<or> move_index m = 2)) \<and>
   21 < length buildCubes \<and> isFaceCentre (userData (buildCubes ! 21)) \<and>
   userData (smallCubes (run initialState
       [Click 0 0, Frame 200, Frame 400, SolveTimeout solvedDots]) ! 21) = GridPos 2 1 1"
proof -
  have a: "21 < length buildCubes" by (simp add: length_buildCubes)
  have b: "isFaceCentre (userData (buildCubes ! 21))"
    by (simp add: nth_buildCubes_21 newCube_def isFaceCentre_def)
  have c: "userData (buildCubes ! 21) = GridPos 2 1 1"
    by (simp add: nth_buildCubes_21 newCube_def)
  from navigation_turns_outer_slices have
    1: "\<forall>f < 6. \<exists>m. faceToMove f = Some m \<and> (move_index m = 0 \<or> move_index m = 2)"
    and 2: "\<forall>evs j. j < length buildCubes \<and> isFaceCentre (userData (buildCubes ! j)) \<longrightarrow>
       userData (smallCubes (run initialState evs) ! j) = userData (buildCubes ! j)"
    by blast+
  have "\<exists>m. faceToMove 0 = Some m \<and> (move_index m = 0 \<or> move_index m = 2)"
    using 1 by simp
  moreover have "userData (smallCubes (run initialState
       [Click 0 0, Frame 200, Frame 400, SolveTimeout solvedDots]) ! 21) = GridPos 2 1 1"
    using 2 a b c by metis
  ultimately show ?thesis using a b by simp
qed

lemma samePose_refl: "list_all2 samePose cs cs"
  by (simp add: list_all2_refl samePose_def)

lemma navigateToFace_landed:
  assumes "faceToMove f = Some m" "\<not> isAnimating st" "introComplete st" "completes e0 es"
  shows "landed (move_axis m) (move_index m) (move_direction m) (smallCubes st)
           (run (navigateToFace f e0 st) (map Frame es))"
proof -
  let ?R = "rotateSliceRun (move_axis m) (move_index m) (move_direction m) True e0 es st"
  have "sameCubes (run (navigateToFace f e0 st) (map Frame es)) ?R"
    unfolding rotateSliceRun_def
    by (rule run_frames_sameCubes) (rule navigateToFace_sameCubes[OF assms(1,2,3)])
  moreover have "landed (move_axis m) (move_index m) (move_direction m) (smallCubes st) ?R"
    using assms(2,4) by (rule rotateSliceRun_landed)
  ultimately show ?thesis by (simp add: sameCubes_def landed_def)
qed

lemma navigateToFace_inFlight:
  assumes "faceToMove f = Some m" "\<not> isAnimating st" "introComplete st" "e0 < duration"
  shows "isAnimating (navigateToFace f e0 st)"
proof -
  let ?r = "rotateSlice (move_axis m) (move_index m) (move_direction m) False e0 st"
  from rotateSlice_early[OF assms(2,4), of "move_axis m" "move_index m" "move_direction m" False]
  have fl: "inFlight (move_axis m) (move_index m) (move_direction m) (smallCubes st) (fst ?r)"
    and nr: "\<not> snd ?r" by simp_all
  have "navigateToFace f e0 st = (fst ?r)\<lparr>awaiting := Some f\<rparr>"
    using assms(1,2,3) nr by (simp add: navigateToFace_def split_beta)
  then show ?thesis using fl by (simp add: inFlight_def)
qed

text \<open>
  Claim C10. \<open>navigateToFace\<close> calls \<open>rotateSlice\<close> with \<open>recordMove = false\<close>: in every
  state reached from the initial state by clicks, frames and timeouts the move history is
  empty and \<open>isSolved\<close> is true, while the cubes, the animation flag and the pending frame
  are those of the same rotation made with \<open>recordMove = true\<close>, which would have appended
  the move and cleared \<open>isSolved\<close>. The rotation itself takes place: the flag is set while
  it is in flight, and once a frame has completed it the flag is cleared, no frame is
  pending, and every cube of the slice has been turned and snapped (\<open>turnSlice\<close>, the stored
  quaternion up to its sign); from cubes on the grid the grid coordinates have moved by
  the quarter turn and the cubes are on the grid again.
\<close>

theorem navigation_records_nothing:
  "moveHistory (run initialState evs) = [] \<and> isSolved (run initialState evs) \<and>
   (faceToMove f = Some m \<and> \<not> isAnimating st \<and> introComplete st \<longrightarrow>
      sameCubes (run (navigateToFace f e0 st) (map Frame es))
        (rotateSliceRun (move_axis m) (move_index m) (move_direction m) True e0 es st) \<and>
      moveHistory (run (navigateToFace f e0 st) (map Frame es)) = moveHistory st \<and>
      isSolved (run (navigateToFace f e0 st) (map Frame es)) = isSolved st \<and>
      moveHistory (rotateSliceRun (move_axis m) (move_index m) (move_direction m) True e0 es st) =
        moveHistory st @ [m] \<and>
      \<not> isSolved (rotateSliceRun (move_axis m) (move_index m) (move_direction m) True e0 es st) \<and>
      (e0 < duration \<longrightarrow> isAnimating (navigateToFace f e0 st)) \<and>
      (completes e0 es \<longrightarrow>
         \<not> isAnimating (run (navigateToFace f e0 st) (map Frame es)) \<and>
         pendingFrame (run (navigateToFace f e0 st) (map Frame es)) = None \<and>
         list_all2 samePose (smallCubes (run (navigateToFace f e0 st) (map Frame es)))
           (turnSlice (move_axis m) (move_index m) (move_direction m) (smallCubes st)) \<and>
         (onGrid (smallCubes st) \<longrightarrow>
            map userData (smallCubes (run (navigateToFace f e0 st) (map Frame es))) =
              map (turnIf (move_axis m) (move_index m) (move_direction m))
                (map userData (smallCubes st)) \<and>
            onGrid (smallCubes (run (navigateToFace f e0 st) (map Frame es))))))"
proof -
  have inv: "navInv (run initialState evs)" by (rule navInv_run[OF navInv_initialState])
  have 1: "moveHistory (run initialState evs) = [] \<and> isSolved (run initialState evs)"
    using inv by (simp add: navInv_def)
  have 2: "sameCubes (run (navigateToFace f e0 st) (map Frame es))
        (rotateSliceRun (move_axis m) (move_index m) (move_direction m) True e0 es st) \<and>
      moveHistory (run (navigateToFace f e0 st) (map Frame es)) = moveHistory st \<and>
      isSolved (run (navigateToFace f e0 st) (map Frame es)) = isSolved st \<and>
      moveHistory (rotateSliceRun (move_axis m) (move_index m) (move_direction m) True e0 es st) =
        moveHistory st @ [m] \<and>
      \<not> isSolved (rotateSliceRun (move_axis m) (move_index m) (move_direction m) True e0 es st)"
    if fm: "faceToMove f = Some m" and idle: "\<not> isAnimating st" and ic: "introComplete st"
  proof -
    have "sameCubes (run (navigateToFace f e0 st) (map Frame es))
        (rotateSliceRun (move_axis m) (move_index m) (move_direction m) True e0 es st)"
      unfolding rotateSliceRun_def
      by (rule run_frames_sameCubes) (rule navigateToFace_sameCubes[OF fm idle ic])
    moreover have "moveHistory (navigateToFace f e0 st) = moveHistory st \<and>
        isSolved (navigateToFace f e0 st) = isSolved st"
      using fm idle ic rotateSlice_history[OF idle, of "move_axis m" "move_index m"
          "move_direction m" False e0]
      by (simp add: navigateToFace_def split_beta recorded_def)
    moreover have "moveHistory (fst (rotateSlice (move_axis m) (move_index m)
          (move_direction m) True e0 st)) = moveHistory st @ [m] \<and>
        \<not> isSolved (fst (rotateSlice (move_axis m) (move_index m) (move_direction m) True e0 st))"
      using rotateSlice_history[OF idle, of "move_axis m" "move_index m" "move_direction m"
          True e0]
      by (simp add: recorded_def)
    ultimately show ?thesis
      by (simp add: run_frames_keeps rotateSliceRun_def)
  qed
  have 3: "isAnimating (navigateToFace f e0 st)"
    if "faceToMove f = Some m" "\<not> isAnimating st" "introComplete st" "e0 < duration"
    using that by (rule navigateToFace_inFlight)
  have 4: "\<not> isAnimating (run (navigateToFace f e0 st) (map Frame es)) \<and>
         pendingFrame (run (navigateToFace f e0 st) (map Frame es)) = None \<and>
         list_all2 samePose (smallCubes (run (navigateToFace f e0 st) (map Frame es)))
           (turnSlice (move_axis m) (move_index m) (move_direction m) (smallCubes st)) \<and>
         (onGrid (smallCubes st) \<longrightarrow>
            map userData (smallCubes (run (navigateToFace f e0 st) (map Frame es))) =
              map (turnIf (move_axis m) (move_index m) (move_direction m))
                (map userData (smallCubes st)) \<and>
            onGrid (smallCubes (run (navigateToFace f e0 st) (map Frame es))))"
    if fm: "faceToMove f = Some m" and idle: "\<not> isAnimating st" and ic: "introComplete st"
      and co: "completes e0 es"
  proof -
    have l: "landed (move_axis m) (move_index m) (move_direction m) (smallCubes st)
           (run (navigateToFace f e0 st) (map Frame es))"
      using fm idle ic co by (rule navigateToFace_landed)
    have d: "move_direction m = 1 \<or> move_direction m = - 1"
      using faceToMove_cases[OF fm] by simp
    have g: "map userData (turnSlice (move_axis m) (move_index m) (move_direction m)
          (smallCubes st)) =
        map (turnIf (move_axis m) (move_index m) (move_direction m)) (map userData (smallCubes st)) \<and>
        onGrid (turnSlice (move_axis m) (move_index m) (move_direction m) (smallCubes st))"
      if og: "onGrid (smallCubes st)"
    proof -
      have "list_all (\<lambda>c. position c = gridPosition (userData c)) (smallCubes st)"
        using og by (simp add: onGrid_def)
      then have "map userData (turnSlice (move_axis m) (move_index m) (move_direction m)
          (smallCubes st)) =
        map (turnIf (move_axis m) (move_index m) (move_direction m)) (map userData (smallCubes st))"
        by (rule turnSlice_userData[OF d])
      moreover have "onGrid (turnSlice (move_axis m) (move_index m) (move_direction m)
          (smallCubes st))"
        using d og by (rule turnSlice_onGrid)
      ultimately show ?thesis by (rule conjI)
    qed
    show ?thesis using l g by (simp add: landed_def samePose_refl)
  qed
  show ?thesis using 1 2 3 4 by blast
qed

theorem navigation_records_nothing_witness:
  "faceToMove 2 = Some \<lparr>move_axis = AxisY, move_index = 2, move_direction = 1\<rparr> \<and>
   \<not> isAnimating initialState \<and> introComplete initialState \<and>
   (0::real) < duration \<and> completes 0 [100, 350] \<and> onGrid (smallCubes initialState) \<and>
   moveHistory (run initialState [Click 2 0, Frame 350, SolveTimeout solvedDots, Click 5 1]) = [] \<and>
   isSolved (run initialState [Click 2 0, Frame 350, SolveTimeout solvedDots, Click 5 1]) \<and>
   sameCubes (run (navigateToFace 2 0 initialState) (map Frame [100, 350]))
     (rotateSliceRun AxisY 2 1 True 0 [100, 350] initialState) \<and>
   moveHistory (rotateSliceRun AxisY 2 1 True 0 [100, 350] initialState) =
     [\<lparr>move_axis = AxisY, move_index = 2, move_direction = 1\<rparr>] \<and>
   isAnimating (navigateToFace 2 0 initialState) \<and>
   \<not> isAnimating (run (navigateToFace 2 0 initialState) (map Frame [100, 350])) \<and>
   map userData (smallCubes (run (navigateToFace 2 0 initialState) (map Frame [100, 350]))) =
     map (turnIf AxisY 2 1) (map userData (smallCubes initialState)) \<and>
   turnIf AxisY 2 1 (GridPos 2 2 0) = GridPos 0 2 0"
proof -
  have a: "faceToMove 2 = Some \<lparr>move_axis = AxisY, move_index = 2, move_direction = 1\<rparr>"
    by (simp add: faceToMove_def)
  have b: "\<not> isAnimating initialState" "introComplete initialState"
    "moveHistory initialState = []"
    by (simp_all add: initialState_def)
  have c: "(0::real) < duration" "completes 0 [100, 350]"
    by (simp_all add: duration_def completes_def)
  have og: "onGrid (smallCubes initialState)"
    using atRest_initialState by (simp add: atRest_def)
  have t: "turnIf AxisY 2 1 (GridPos 2 2 0) = GridPos 0 2 0"
    by (simp add: turnIf_def inSlice_def turnGrid_def)
  show ?thesis
    using navigation_records_nothing[of
        "[Click 2 0, Frame 350, SolveTimeout solvedDots, Click 5 1]"
        2 "\<lparr>move_axis = AxisY, move_index = 2, move_direction = 1\<rparr>" initialState 0
        "[100, 350]"]
      a b c og t
    by simp
qed

section \<open>Euler angles of a snapped orientation\<close>

lemma Math_atan2_range: "- pi < Math_atan2 b a \<and> Math_atan2 b a \<le> pi"
proof -
  have lb: "- (pi / 2) < arctan (b / a)" by (rule arctan_lbound)
  have ub: "arctan (b / a) < pi / 2" by (rule arctan_ubound)
  have neg: "arctan (b / a) \<le> 0" if "a < 0" "0 \<le> b"
    using that by (simp add: divide_nonneg_neg arctan_le_zero_iff)
  have pos: "0 < arctan (b / a)" if "a < 0" "b < 0"
    using that by (simp add: divide_neg_neg)
  have p: "0 < pi" by simp
  consider "0 < a" | "a < 0" "0 \<le> b" | "a < 0" "b < 0" | "a = 0" "0 < b" | "a = 0" "b < 0" | "a = 0" "b = 0"
    by linarith
  then show ?thesis
  proof cases
    case 1
    then show ?thesis unfolding Math_atan2_def using lb ub p by (simp; linarith?)
  next
    case 2
    then show ?thesis unfolding Math_atan2_def using lb ub p neg by (simp; linarith?)
  next
    case 3
    then show ?thesis unfolding Math_atan2_def using lb ub p pos by (simp; linarith?)
  next
    case 4
    then show ?thesis unfolding Math_atan2_def using p by (simp; linarith?)
  next
    case 5
    then show ?thesis unfolding Math_atan2_def using p by (simp; linarith?)
  next
    case 6
    then show ?thesis unfolding Math_atan2_def using p by simp
  qed
qed

lemma arcsin_clamp_range:
  "- (pi / 2) \<le> arcsin (clamp v (- 1) 1) \<and> arcsin (clamp v (- 1) 1) \<le> pi / 2"
proof -
  have "- 1 \<le> clamp v (- 1) 1" "clamp v (- 1) 1 \<le> 1" by (simp_all add: clamp_def)
  then show ?thesis by (rule arcsin_bounded)
qed

lemma int_between_cases:
  fixes n :: int
  shows "- 2 \<le> n \<Longrightarrow> n \<le> 2 \<Longrightarrow> n \<in> {- 2, - 1, 0, 1, 2}"
    and "- 1 \<le> n \<Longrightarrow> n \<le> 1 \<Longrightarrow> n \<in> {- 1, 0, 1}"
  by auto

lemma round_quarter_wide:
  assumes "- pi < v" "v \<le> pi"
  shows "Math_round (v / (pi / 2)) \<in> {- 2, - 1, 0, 1, 2}"
proof -
  define w where "w = v / (pi / 2)"
  have p: "0 < pi / 2" by simp
  have "- pi / (pi / 2) < w" unfolding w_def using assms(1) p by (simp only: divide_strict_right_mono)
  then have lo: "- 2 < w" by simp
  have "w \<le> pi / (pi / 2)" unfolding w_def using assms(2) p by (simp only: divide_right_mono less_imp_le)
  then have hi: "w \<le> 2" by simp
  have "- 2 \<le> \<lfloor>w + 1 / 2\<rfloor>" using lo by (simp add: le_floor_iff)
  moreover have "\<lfloor>w + 1 / 2\<rfloor> < 3" using hi by (simp add: floor_less_iff)
  ultimately have "\<lfloor>w + 1 / 2\<rfloor> \<in> {- 2, - 1, 0, 1, 2}" by (intro int_between_cases) simp_all
  then show ?thesis unfolding Math_round_def w_def .
qed

lemma round_quarter_narrow:
  assumes "- (pi / 2) \<le> v" "v \<le> pi / 2"
  shows "Math_round (v / (pi / 2)) \<in> {- 1, 0, 1}"
proof -
  define w where "w = v / (pi / 2)"
  have p: "0 < pi / 2" by simp
  have "- (pi / 2) / (pi / 2) \<le> w" unfolding w_def using assms(1) p by (simp only: divide_right_mono less_imp_le)
  then have lo: "- 1 \<le> w" by simp
  have "w \<le> (pi / 2) / (pi / 2)" unfolding w_def using assms(2) p by (simp only: divide_right_mono less_imp_le)
  then have hi: "w \<le> 1" by simp
  have "- 1 \<le> \<lfloor>w + 1 / 2\<rfloor>" using lo by (simp add: le_floor_iff)
  moreover have "\<lfloor>w + 1 / 2\<rfloor> < 2" using hi by (simp add: floor_less_iff)
  ultimately have "\<lfloor>w + 1 / 2\<rfloor> \<in> {- 1, 0, 1}" by (intro int_between_cases) simp_all
  then show ?thesis unfolding Math_round_def w_def .
qed

lemma setFromQuaternion_range:
  "- pi < ex (setFromQuaternion q) \<and> ex (setFromQuaternion q) \<le> pi \<and>
   - (pi / 2) \<le> ey (setFromQuaternion q) \<and> ey (setFromQuaternion q) \<le> pi / 2 \<and>
   - pi < ez (setFromQuaternion q) \<and> ez (setFromQuaternion q) \<le> pi"
  using Math_atan2_range arcsin_clamp_range
  by (simp add: setFromQuaternion_def setFromRotationMatrix_def Let_def)

lemma snapQuaternion_qE:
  "\<exists>k1 k2 k3. k1 \<in> {- 2, - 1, 0, 1, 2} \<and> k2 \<in> {- 1, 0, 1} \<and> k3 \<in> {- 2, - 1, 0, 1, 2} \<and>
     snapQuaternion q = qE k1 k2 k3"
proof -
  let ?e = "setFromQuaternion q"
  have "Math_round (ex ?e / (pi / 2)) \<in> {- 2, - 1, 0, 1, 2}"
    using setFromQuaternion_range[of q] by (intro round_quarter_wide) simp_all
  moreover have "Math_round (ey ?e / (pi / 2)) \<in> {- 1, 0, 1}"
    using setFromQuaternion_range[of q] by (intro round_quarter_narrow) simp_all
  moreover have "Math_round (ez ?e / (pi / 2)) \<in> {- 2, - 1, 0, 1, 2}"
    using setFromQuaternion_range[of q] by (intro round_quarter_wide) simp_all
  moreover have "snapQuaternion q =
      qE (Math_round (ex ?e / (pi / 2))) (Math_round (ey ?e / (pi / 2))) (Math_round (ez ?e / (pi / 2)))"
    by (simp add: snapQuaternion_def qE_def Let_def)
  ultimately show ?thesis by blast
qed

section \<open>The 24 snapped orientations\<close>

lemmas snap_defs = snapQuaternion_def setFromQuaternion_def makeRotationFromQuaternion_def
  setFromRotationMatrix_def clamp_def Math_atan2_def Math_round_def setFromEuler_def Let_def

lemma Q24_values:
  "Q24 =
    [Quaternion (- (1 / 2)) (- (1 / 2)) (- (1 / 2)) (1 / 2),
     Quaternion (- (sqrt 2 / 2)) 0 0 (sqrt 2 / 2),
     Quaternion (- (1 / 2)) (1 / 2) (1 / 2) (1 / 2),
     Quaternion 0 (sqrt 2 / 2) (sqrt 2 / 2) 0,
     Quaternion 0 0 (- (sqrt 2 / 2)) (sqrt 2 / 2),
     Quaternion 0 0 0 1,
     Quaternion 0 0 (sqrt 2 / 2) (sqrt 2 / 2),
     Quaternion 0 0 1 0,
     Quaternion (1 / 2) (1 / 2) (- (1 / 2)) (1 / 2),
     Quaternion (sqrt 2 / 2) 0 0 (sqrt 2 / 2),
     Quaternion (1 / 2) (- (1 / 2)) (1 / 2) (1 / 2),
     Quaternion 0 (- (sqrt 2 / 2)) (sqrt 2 / 2) 0,
     Quaternion (sqrt 2 / 2) (sqrt 2 / 2) 0 0,
     Quaternion 1 0 0 0,
     Quaternion (sqrt 2 / 2) (- (sqrt 2 / 2)) 0 0,
     Quaternion 0 (- 1) 0 0,
     Quaternion (- (1 / 2)) (- (1 / 2)) (1 / 2) (1 / 2),
     Quaternion (- (1 / 2)) (1 / 2) (- (1 / 2)) (1 / 2),
     Quaternion 0 (- (sqrt 2 / 2)) 0 (sqrt 2 / 2),
     Quaternion 0 (sqrt 2 / 2) 0 (sqrt 2 / 2),
     Quaternion (1 / 2) (- (1 / 2)) (- (1 / 2)) (1 / 2),
     Quaternion (1 / 2) (1 / 2) (1 / 2) (1 / 2),
     Quaternion (sqrt 2 / 2) 0 (- (sqrt 2 / 2)) 0,
     Quaternion (sqrt 2 / 2) 0 (sqrt 2 / 2) 0]"
  by (simp add: Q24_def qE_def setFromEuler_def sin_45 cos_45)

lemma Q24_cases:
  assumes "q \<in> set Q24"
  shows "q \<in> set
    [Quaternion (- (1 / 2)) (- (1 / 2)) (- (1 / 2)) (1 / 2),
     Quaternion (- (sqrt 2 / 2)) 0 0 (sqrt 2 / 2),
     Quaternion (- (1 / 2)) (1 / 2) (1 / 2) (1 / 2),
     Quaternion 0 (sqrt 2 / 2) (sqrt 2 / 2) 0,
     Quaternion 0 0 (- (sqrt 2 / 2)) (sqrt 2 / 2),
     Quaternion 0 0 0 1,
     Quaternion 0 0 (sqrt 2 / 2) (sqrt 2 / 2),
     Quaternion 0 0 1 0,
     Quaternion (1 / 2) (1 / 2) (- (1 / 2)) (1 / 2),
     Quaternion (sqrt 2 / 2) 0 0 (sqrt 2 / 2),
     Quaternion (1 / 2) (- (1 / 2)) (1 / 2) (1 / 2),
     Quaternion 0 (- (sqrt 2 / 2)) (sqrt 2 / 2) 0,
     Quaternion (sqrt 2 / 2) (sqrt 2 / 2) 0 0,
     Quaternion 1 0 0 0,
     Quaternion (sqrt 2 / 2) (- (sqrt 2 / 2)) 0 0,
     Quaternion 0 (- 1) 0 0,
     Quaternion (- (1 / 2)) (- (1 / 2)) (1 / 2) (1 / 2),
     Quaternion (- (1 / 2)) (1 / 2) (- (1 / 2)) (1 / 2),
     Quaternion 0 (- (sqrt 2 / 2)) 0 (sqrt 2 / 2),
     Quaternion 0 (sqrt 2 / 2) 0 (sqrt 2 / 2),
     Quaternion (1 / 2) (- (1 / 2)) (- (1 / 2)) (1 / 2),
     Quaternion (1 / 2) (1 / 2) (1 / 2) (1 / 2),
     Quaternion (sqrt 2 / 2) 0 (- (sqrt 2 / 2)) 0,
     Quaternion (sqrt 2 / 2) 0 (sqrt 2 / 2) 0]"
  using assms by (simp only: Q24_values)

lemma qE_snap_sign:
  assumes "k1 \<in> {- 2, - 1, 0, 1, 2}" "k2 \<in> {- 1, 0, 1}" "k3 \<in> {- 2, - 1, 0, 1, 2}"
  shows "snapQuaternion (qE k1 k2 k3) = qE k1 k2 k3 \<or>
         snapQuaternion (qE k1 k2 k3) = negate (qE k1 k2 k3)"
  using assms
  apply (simp only: insert_iff empty_iff simp_thms)
  apply (elim disjE)
  apply (simp_all add: qE_def snap_defs negate_def sin_45 cos_45)
  done

lemma snapQuaternion_twice:
  "snapQuaternion (snapQuaternion q) = snapQuaternion q \<or>
   snapQuaternion (snapQuaternion q) = negate (snapQuaternion q)"
proof -
  obtain k1 k2 k3 where "k1 \<in> {- 2, - 1, 0, 1, 2}" "k2 \<in> {- 1, 0, 1}"
    "k3 \<in> {- 2, - 1, 0, 1, 2}" "snapQuaternion q = qE k1 k2 k3"
    using snapQuaternion_qE[of q] by blast
  then show ?thesis using qE_snap_sign[of k1 k2 k3] by simp
qed

lemma makeRotationFromQuaternion_negate:
  "makeRotationFromQuaternion (negate q) = makeRotationFromQuaternion q"
  by (simp add: makeRotationFromQuaternion_def negate_def Let_def)

lemma Q24_fixed:
  assumes "q \<in> set Q24"
  shows "snapQuaternion q = q"
  using Q24_cases[OF assms]
  apply (simp only: list.set insert_iff empty_iff simp_thms)
  apply (elim disjE)
  apply (simp_all add: snap_defs sin_45 cos_45)
  done

lemma qE_fixed_Q24:
  assumes "k1 \<in> {- 2, - 1, 0, 1, 2}" "k2 \<in> {- 1, 0, 1}" "k3 \<in> {- 2, - 1, 0, 1, 2}"
    "snapQuaternion (qE k1 k2 k3) = qE k1 k2 k3"
  shows "qE k1 k2 k3 \<in> set Q24"
  using assms
  apply (simp only: insert_iff empty_iff simp_thms)
  apply (elim disjE)
  apply (simp_all add: qE_def snap_defs sin_45 cos_45)
  apply (simp_all add: Q24_values)
  done

lemma fixed_Q24:
  assumes "snapQuaternion q = q"
  shows "q \<in> set Q24"
proof -
  obtain k1 k2 k3 where k: "k1 \<in> {- 2, - 1, 0, 1, 2}" "k2 \<in> {- 1, 0, 1}"
    "k3 \<in> {- 2, - 1, 0, 1, 2}" and s: "snapQuaternion q = qE k1 k2 k3"
    using snapQuaternion_qE[of q] by blast
  have q: "q = qE k1 k2 k3" using assms s by simp
  then have "snapQuaternion (qE k1 k2 k3) = qE k1 k2 k3" using assms by simp
  then show ?thesis using qE_fixed_Q24[OF k] q by simp
qed

lemma fixed_iff_Q24: "snapQuaternion q = q \<longleftrightarrow> q \<in> set Q24"
  using fixed_Q24 Q24_fixed by blast

lemma turn4_AxisX_pos:
  assumes "q \<in> set Q24"
  shows "turnQ AxisX 1 (turnQ AxisX 1 (turnQ AxisX 1 (turnQ AxisX 1 q))) = q"
  using Q24_cases[OF assms]
  apply (simp only: list.set insert_iff empty_iff simp_thms)
  apply (elim disjE)
  apply (simp_all add: turnQ_def quarterTurn_pos multiply_def snap_defs sin_45 cos_45)
  done

lemma turn1_AxisX_pos:
  assumes "q \<in> set Q24"
  shows "turnQ AxisX 1 q \<in> set Q24"
  using Q24_cases[OF assms]
  apply (simp only: list.set insert_iff empty_iff simp_thms)
  apply (elim disjE)
  apply (simp_all add: turnQ_def quarterTurn_pos multiply_def snap_defs sin_45 cos_45)
  apply (simp_all add: Q24_values)
  done

lemma turn4_AxisX_neg:
  assumes "q \<in> set Q24"
  shows "turnQ AxisX (- 1) (turnQ AxisX (- 1) (turnQ AxisX (- 1) (turnQ AxisX (- 1) q))) = q"
  using Q24_cases[OF assms]
  apply (simp only: list.set insert_iff empty_iff simp_thms)
  apply (elim disjE)
  apply (simp_all add: turnQ_def quarterTurn_neg multiply_def snap_defs sin_45 cos_45)
  done

lemma turn1_AxisX_neg:
  assumes "q \<in> set Q24"
  shows "turnQ AxisX (- 1) q \<in> set Q24"
  using Q24_cases[OF assms]
  apply (simp only: list.set insert_iff empty_iff simp_thms)
  apply (elim disjE)
  apply (simp_all add: turnQ_def quarterTurn_neg multiply_def snap_defs sin_45 cos_45)
  apply (simp_all add: Q24_values)
  done

lemma turn4_AxisY_pos:
  assumes "q \<in> set Q24"
  shows "turnQ AxisY 1 (turnQ AxisY 1 (turnQ AxisY 1 (turnQ AxisY 1 q))) = q"
  using Q24_cases[OF assms]
  apply (simp only: list.set insert_iff empty_iff simp_thms)
  apply (elim disjE)
  apply (simp_all add: turnQ_def quarterTurn_pos multiply_def snap_defs sin_45 cos_45)
  done

lemma turn1_AxisY_pos:
  assumes "q \<in> set Q24"
  shows "turnQ AxisY 1 q \<in> set Q24"
  using Q24_cases[OF assms]
  apply (simp only: list.set insert_iff empty_iff simp_thms)
  apply (elim disjE)
  apply (simp_all add: turnQ_def quarterTurn_pos multiply_def snap_defs sin_45 cos_45)
  apply (simp_all add: Q24_values)
  done

lemma turn4_AxisY_neg:
  assumes "q \<in> set Q24"
  shows "turnQ AxisY (- 1) (turnQ AxisY (- 1) (turnQ AxisY (- 1) (turnQ AxisY (- 1) q))) = q"
  using Q24_cases[OF assms]
  apply (simp only: list.set insert_iff empty_iff simp_thms)
  apply (elim disjE)
  apply (simp_all add: turnQ_def quarterTurn_neg multiply_def snap_defs sin_45 cos_45)
  done

lemma turn1_AxisY_neg:
  assumes "q \<in> set Q24"
  shows "turnQ AxisY (- 1) q \<in> set Q24"
  using Q24_cases[OF assms]
  apply (simp only: list.set insert_iff empty_iff simp_thms)
  apply (elim disjE)
  apply (simp_all add: turnQ_def quarterTurn_neg multiply_def snap_defs sin_45 cos_45)
  apply (simp_all add: Q24_values)
  done

lemma turn4_AxisZ_pos:
  assumes "q \<in> set Q24"
  shows "turnQ AxisZ 1 (turnQ AxisZ 1 (turnQ AxisZ 1 (turnQ AxisZ 1 q))) = q"
  using Q24_cases[OF assms]
  apply (simp only: list.set insert_iff empty_iff simp_thms)
  apply (elim disjE)
  apply (simp_all add: turnQ_def quarterTurn_pos multiply_def snap_defs sin_45 cos_45)
  done

lemma turn1_AxisZ_pos:
  assumes "q \<in> set Q24"
  shows "turnQ AxisZ 1 q \<in> set Q24"
  using Q24_cases[OF assms]
  apply (simp only: list.set insert_iff empty_iff simp_thms)
  apply (elim disjE)
  apply (simp_all add: turnQ_def quarterTurn_pos multiply_def snap_defs sin_45 cos_45)
  apply (simp_all add: Q24_values)
  done

lemma turn4_AxisZ_neg:
  assumes "q \<in> set Q24"
  shows "turnQ AxisZ (- 1) (turnQ AxisZ (- 1) (turnQ AxisZ (- 1) (turnQ AxisZ (- 1) q))) = q"
  using Q24_cases[OF assms]
  apply (simp only: list.set insert_iff empty_iff simp_thms)
  apply (elim disjE)
  apply (simp_all add: turnQ_def quarterTurn_neg multiply_def snap_defs sin_45 cos_45)
  done

lemma turn1_AxisZ_neg:
  assumes "q \<in> set Q24"
  shows "turnQ AxisZ (- 1) q \<in> set Q24"
  using Q24_cases[OF assms]
  apply (simp only: list.set insert_iff empty_iff simp_thms)
  apply (elim disjE)
  apply (simp_all add: turnQ_def quarterTurn_neg multiply_def snap_defs sin_45 cos_45)
  apply (simp_all add: Q24_values)
  done

lemma turnQ_four:
  assumes "q \<in> set Q24" "d = 1 \<or> d = - 1"
  shows "turnQ a d (turnQ a d (turnQ a d (turnQ a d q))) = q"
  using assms(2)
proof
  assume "d = 1"
  then show ?thesis
    using assms(1) turn4_AxisX_pos turn4_AxisY_pos turn4_AxisZ_pos by (cases a) simp_all
next
  assume "d = - 1"
  then show ?thesis
    using assms(1) turn4_AxisX_neg turn4_AxisY_neg turn4_AxisZ_neg by (cases a) simp_all
qed

lemma turnQ_Q24:
  assumes "q \<in> set Q24" "d = 1 \<or> d = - 1"
  shows "turnQ a d q \<in> set Q24"
  using assms(2)
proof
  assume "d = 1"
  then show ?thesis
    using assms(1) turn1_AxisX_pos turn1_AxisY_pos turn1_AxisZ_pos by (cases a) simp_all
next
  assume "d = - 1"
  then show ?thesis
    using assms(1) turn1_AxisX_neg turn1_AxisY_neg turn1_AxisZ_neg by (cases a) simp_all
qed

section \<open>Axis-aligned orientations of either sign\<close>

lemma negate_negate [simp]: "negate (negate q) = q"
  by (cases q) (simp add: negate_def)

lemma multiply_negate: "multiply r (negate q) = negate (multiply r q)"
  by (simp add: multiply_def negate_def)

lemma snapQuaternion_negate: "snapQuaternion (negate q) = snapQuaternion q"
  by (simp add: snapQuaternion_def setFromQuaternion_def makeRotationFromQuaternion_negate)

lemma turnQ_negate: "turnQ a d (negate q) = turnQ a d q"
  by (simp add: turnQ_def multiply_negate snapQuaternion_negate)

lemma axisAligned_negate: "axisAligned (negate q) = axisAligned q"
  by (auto simp: axisAligned_def)

lemma snapQuaternion_aligned:
  assumes "axisAligned q"
  shows "snapQuaternion q \<in> set Q24"
    and "makeRotationFromQuaternion (snapQuaternion q) = makeRotationFromQuaternion q"
    and "snapQuaternion q = q \<or> snapQuaternion q = negate q"
proof -
  from assms consider "q \<in> set Q24" | "negate q \<in> set Q24" by (auto simp: axisAligned_def)
  then have "snapQuaternion q \<in> set Q24 \<and>
      makeRotationFromQuaternion (snapQuaternion q) = makeRotationFromQuaternion q \<and>
      (snapQuaternion q = q \<or> snapQuaternion q = negate q)"
  proof cases
    case 1
    then show ?thesis by (simp add: Q24_fixed)
  next
    case 2
    have "snapQuaternion q = negate q"
      using Q24_fixed[OF 2] by (simp add: snapQuaternion_negate)
    then show ?thesis using 2 by (simp add: makeRotationFromQuaternion_negate)
  qed
  then show "snapQuaternion q \<in> set Q24"
    and "makeRotationFromQuaternion (snapQuaternion q) = makeRotationFromQuaternion q"
    and "snapQuaternion q = q \<or> snapQuaternion q = negate q"
    by simp_all
qed

lemma multiply_Q24_pos:
  assumes "q \<in> set Q24"
  shows "axisAligned (multiply (quarterTurn a 1) q)"
  using Q24_cases[OF assms]
  apply (simp only: list.set insert_iff empty_iff simp_thms)
  apply (elim disjE)
  apply (cases a; simp add: quarterTurn_pos multiply_def axisAligned_def negate_def Q24_values)+
  done

lemma multiply_Q24_neg:
  assumes "q \<in> set Q24"
  shows "axisAligned (multiply (quarterTurn a (- 1)) q)"
  using Q24_cases[OF assms]
  apply (simp only: list.set insert_iff empty_iff simp_thms)
  apply (elim disjE)
  apply (cases a; simp add: quarterTurn_neg multiply_def axisAligned_def negate_def Q24_values)+
  done

lemma multiply_aligned:
  assumes "axisAligned q" "d = 1 \<or> d = - 1"
  shows "axisAligned (multiply (quarterTurn a d) q)"
proof -
  have *: "axisAligned (multiply (quarterTurn a d) p)" if "p \<in> set Q24" for p
    using assms(2) that multiply_Q24_pos multiply_Q24_neg by auto
  from assms(1) consider "q \<in> set Q24" | "negate q \<in> set Q24" by (auto simp: axisAligned_def)
  then show ?thesis
  proof cases
    case 1
    then show ?thesis by (rule *)
  next
    case 2
    have "axisAligned (negate (multiply (quarterTurn a d) (negate q)))"
      using *[OF 2] by (simp only: axisAligned_negate)
    then show ?thesis by (simp add: multiply_negate)
  qed
qed

lemma turnQ_aligned:
  assumes "axisAligned q" "d = 1 \<or> d = - 1"
  shows "turnQ a d q \<in> set Q24"
    and "makeRotationFromQuaternion (turnQ a d q) =
         makeRotationFromQuaternion (multiply (quarterTurn a d) q)"
  unfolding turnQ_def using snapQuaternion_aligned[OF multiply_aligned[OF assms]] by simp_all

lemma turnQ_four_aligned:
  assumes "axisAligned q" "d = 1 \<or> d = - 1"
  shows "turnQ a d (turnQ a d (turnQ a d (turnQ a d q))) = q \<or>
         turnQ a d (turnQ a d (turnQ a d (turnQ a d q))) = negate q"
proof -
  from assms(1) consider "q \<in> set Q24" | "negate q \<in> set Q24" by (auto simp: axisAligned_def)
  then show ?thesis
  proof cases
    case 1
    then show ?thesis using turnQ_four[OF 1 assms(2)] by simp
  next
    case 2
    have "turnQ a d (turnQ a d (turnQ a d (turnQ a d (negate q)))) = negate q"
      using 2 assms(2) by (rule turnQ_four)
    then show ?thesis by (simp add: turnQ_negate)
  qed
qed



section \<open>Four quarter turns\<close>

lemma turnCube_quaternion: "quaternion (turnCube a d c) = turnQ a d (quaternion c)"
  by (simp add: turnCube_def turnedCube_def snapCube_def turnQ_def Let_def)

lemma turnGrid_four:
  "d = 1 \<or> d = - 1 \<Longrightarrow> turnGrid a d (turnGrid a d (turnGrid a d (turnGrid a d g))) = g"
  by (cases a; cases g) (auto simp: turnGrid_def)

lemma turnCube_four_aligned:
  assumes "d = 1 \<or> d = - 1" "position c = gridPosition (userData c)"
    "axisAligned (quaternion c)"
  shows "userData (turnCube a d (turnCube a d (turnCube a d (turnCube a d c)))) = userData c \<and>
         position (turnCube a d (turnCube a d (turnCube a d (turnCube a d c)))) = position c \<and>
         makeRotationFromQuaternion
           (quaternion (turnCube a d (turnCube a d (turnCube a d (turnCube a d c))))) =
           makeRotationFromQuaternion (quaternion c)"
proof -
  let ?c1 = "turnCube a d c"
  let ?c2 = "turnCube a d ?c1"
  let ?c3 = "turnCube a d ?c2"
  let ?c4 = "turnCube a d ?c3"
  note d = assms(1)
  have 1: "userData ?c1 = turnGrid a d (userData c)" "position ?c1 = gridPosition (userData ?c1)"
    using turnCube_rest[OF d assms(2), of a] by simp_all
  have 2: "userData ?c2 = turnGrid a d (userData ?c1)" "position ?c2 = gridPosition (userData ?c2)"
    using turnCube_rest[OF d 1(2), of a] by simp_all
  have 3: "userData ?c3 = turnGrid a d (userData ?c2)" "position ?c3 = gridPosition (userData ?c3)"
    using turnCube_rest[OF d 2(2), of a] by simp_all
  have 4: "userData ?c4 = turnGrid a d (userData ?c3)" "position ?c4 = gridPosition (userData ?c4)"
    using turnCube_rest[OF d 3(2), of a] by simp_all
  have u: "userData ?c4 = userData c"
    by (simp only: 4(1) 3(1) 2(1) 1(1) turnGrid_four[OF d])
  have p: "position ?c4 = position c"
    by (simp only: 4(2) u assms(2))
  have "quaternion ?c4 = quaternion c \<or> quaternion ?c4 = negate (quaternion c)"
    using turnQ_four_aligned[OF assms(3) d, of a] by (simp only: turnCube_quaternion)
  then have q: "makeRotationFromQuaternion (quaternion ?c4) =
      makeRotationFromQuaternion (quaternion c)"
    by (auto simp: makeRotationFromQuaternion_negate)
  show ?thesis using u p q by simp
qed

lemma turnCube_inSlice:
  assumes "d = 1 \<or> d = - 1" "position c = gridPosition (userData c)"
  shows "inSlice a i (userData (turnCube a d c)) = inSlice a i (userData c)"
  using turnCube_rest[OF assms, of a] turnGrid_inSlice[OF assms(1), of a i "userData c"] by simp

lemma turnSlice_four_nth:
  assumes "d = 1 \<or> d = - 1" "onGrid cs" "j < length cs"
  shows "turnSlice a i d (turnSlice a i d (turnSlice a i d (turnSlice a i d cs))) ! j =
           (if inSlice a i (userData (cs ! j))
            then turnCube a d (turnCube a d (turnCube a d (turnCube a d (cs ! j))))
            else cs ! j)"
proof -
  note d = assms(1)
  let ?c = "cs ! j"
  have p0: "position ?c = gridPosition (userData ?c)"
    using assms(2,3) by (simp add: onGrid_def list_all_length)
  have p1: "position (turnCube a d ?c) = gridPosition (userData (turnCube a d ?c))"
    using turnCube_rest[OF d p0, of a] by simp
  have p2: "position (turnCube a d (turnCube a d ?c)) =
            gridPosition (userData (turnCube a d (turnCube a d ?c)))"
    using turnCube_rest[OF d p1, of a] by simp
  show ?thesis
    using assms(3)
    by (simp add: turnSlice_nth turnCube_inSlice[OF d p0] turnCube_inSlice[OF d p1]
          turnCube_inSlice[OF d p2])
qed

lemma four_turns_A:
  assumes "atRest st" "alignedOrientations (smallCubes st)" "validMove a i d"
    "completes e1 es1" "completes e2 es2" "completes e3 es3" "completes e4 es4"
    "j < length (smallCubes st)"
  shows "userData (smallCubes (rotateSliceRun a i d r4 e4 es4 (rotateSliceRun a i d r3 e3 es3
           (rotateSliceRun a i d r2 e2 es2 (rotateSliceRun a i d r1 e1 es1 st)))) ! j) =
           userData (smallCubes st ! j) \<and>
         position (smallCubes (rotateSliceRun a i d r4 e4 es4 (rotateSliceRun a i d r3 e3 es3
           (rotateSliceRun a i d r2 e2 es2 (rotateSliceRun a i d r1 e1 es1 st)))) ! j) =
           position (smallCubes st ! j) \<and>
         makeRotationFromQuaternion (quaternion (smallCubes (rotateSliceRun a i d r4 e4 es4
           (rotateSliceRun a i d r3 e3 es3 (rotateSliceRun a i d r2 e2 es2
             (rotateSliceRun a i d r1 e1 es1 st)))) ! j)) =
           makeRotationFromQuaternion (quaternion (smallCubes st ! j))"
proof -
  let ?s1 = "rotateSliceRun a i d r1 e1 es1 st"
  let ?s2 = "rotateSliceRun a i d r2 e2 es2 ?s1"
  let ?s3 = "rotateSliceRun a i d r3 e3 es3 ?s2"
  let ?s4 = "rotateSliceRun a i d r4 e4 es4 ?s3"
  from assms(3) have d: "d = 1 \<or> d = - 1" by (simp add: validMove_def)
  have og: "onGrid (smallCubes st)" using assms(1) by (simp add: atRest_def)
  have r1: "atRest ?s1" using rotateSliceRun_grid[OF assms(1,3,4)] by simp
  have r2: "atRest ?s2" using rotateSliceRun_grid[OF r1 assms(3,5)] by simp
  have r3: "atRest ?s3" using rotateSliceRun_grid[OF r2 assms(3,6)] by simp
  have i0: "\<not> isAnimating st" using assms(1) by (simp add: atRest_def)
  have i1: "\<not> isAnimating ?s1" using r1 by (simp add: atRest_def)
  have i2: "\<not> isAnimating ?s2" using r2 by (simp add: atRest_def)
  have i3: "\<not> isAnimating ?s3" using r3 by (simp add: atRest_def)
  have c1: "smallCubes ?s1 = turnSlice a i d (smallCubes st)"
    using rotateSliceRun_landed[OF i0 assms(4), of a i d r1] by (simp add: landed_def)
  have c2: "smallCubes ?s2 = turnSlice a i d (smallCubes ?s1)"
    using rotateSliceRun_landed[OF i1 assms(5), of a i d r2] by (simp add: landed_def)
  have c3: "smallCubes ?s3 = turnSlice a i d (smallCubes ?s2)"
    using rotateSliceRun_landed[OF i2 assms(6), of a i d r3] by (simp add: landed_def)
  have c4: "smallCubes ?s4 = turnSlice a i d (smallCubes ?s3)"
    using rotateSliceRun_landed[OF i3 assms(7), of a i d r4] by (simp add: landed_def)
  have p0: "position (smallCubes st ! j) = gridPosition (userData (smallCubes st ! j))"
    using og assms(8) by (simp add: onGrid_def list_all_length)
  have q0: "axisAligned (quaternion (smallCubes st ! j))"
    using assms(2,8) by (simp add: alignedOrientations_def list_all_length)
  have n: "smallCubes ?s4 ! j =
           (if inSlice a i (userData (smallCubes st ! j))
            then turnCube a d (turnCube a d (turnCube a d (turnCube a d (smallCubes st ! j))))
            else smallCubes st ! j)"
    by (simp only: c4 c3 c2 c1 turnSlice_four_nth[OF d og assms(8)])
  show ?thesis
    unfolding n using turnCube_four_aligned[OF d p0 q0, of a] by simp
qed

lemma alignedOrientations_buildCubes: "alignedOrientations buildCubes"
proof -
  have "axisAligned (Quaternion 0 0 0 1)" by (simp add: axisAligned_def Q24_values)
  then show ?thesis by (simp add: alignedOrientations_def buildCubes_list newCube_def)
qed

lemma axisAligned_both_signs:
  "axisAligned (Quaternion 1 0 0 0)" "axisAligned (Quaternion (- 1) 0 0 0)"
  by (simp_all add: axisAligned_def negate_def Q24_values)

lemma turnSlice_alignedOrientations:
  assumes "d = 1 \<or> d = - 1" "alignedOrientations cs"
  shows "alignedOrientations (turnSlice a i d cs)"
proof -
  have "axisAligned (quaternion (turnCube a d c))" if "axisAligned (quaternion c)" for c
    using turnQ_aligned(1)[OF that assms(1), of a]
    by (simp add: turnCube_quaternion axisAligned_def)
  then show ?thesis
    using assms(2) by (auto simp: alignedOrientations_def turnSlice_def list_all_iff)
qed

lemma rotateSliceRun_aligned:
  assumes "atRest st" "alignedOrientations (smallCubes st)" "validMove a i d" "completes e0 es"
  shows "atRest (rotateSliceRun a i d r e0 es st) \<and>
         alignedOrientations (smallCubes (rotateSliceRun a i d r e0 es st))"
proof -
  from assms(3) have d: "d = 1 \<or> d = - 1" by (simp add: validMove_def)
  have "\<not> isAnimating st" using assms(1) by (simp add: atRest_def)
  then have "smallCubes (rotateSliceRun a i d r e0 es st) = turnSlice a i d (smallCubes st)"
    using rotateSliceRun_landed[OF _ assms(4), of st a i d r] by (simp add: landed_def)
  then show ?thesis
    using turnSlice_alignedOrientations[OF d assms(2), of a i]
      rotateSliceRun_grid[OF assms(1,3,4), of r]
    by simp
qed

section \<open>Claims on orientation and the snap step\<close>

lemma setFromEuler_full_turn:
  assumes "d = 1 \<or> d = - 1"
  shows "setFromEuler (Euler (ex r + ex (axisEuler a (2 * pi * real_of_int d)))
                             (ey r + ey (axisEuler a (2 * pi * real_of_int d)))
                             (ez r + ez (axisEuler a (2 * pi * real_of_int d)))) =
         negate (setFromEuler r)"
proof -
  have s: "sin (v / 2 + pi) = - sin (v / 2)" "cos (v / 2 + pi) = - cos (v / 2)"
    "sin (v / 2 - pi) = - sin (v / 2)" "cos (v / 2 - pi) = - cos (v / 2)" for v :: real
    by (simp_all add: sin_diff cos_diff)
  have h: "(v + 2 * pi) / 2 = v / 2 + pi" "(v - 2 * pi) / 2 = v / 2 - pi"
    "(v + 0) / 2 = v / 2" for v :: real
    by (simp_all add: field_simps)
  show ?thesis
    using assms
    by (cases a; cases r)
       (auto simp: axisEuler_def setAxisRotation_def setFromEuler_def negate_def Let_def h s)
qed

lemma turnCubeB_four:
  assumes "d = 1 \<or> d = - 1" "positionB c = gridPosition (userDataB c)"
  shows "userDataB (turnCubeB a d (turnCubeB a d (turnCubeB a d (turnCubeB a d c)))) = userDataB c \<and>
         positionB (turnCubeB a d (turnCubeB a d (turnCubeB a d (turnCubeB a d c)))) = positionB c \<and>
         rotationB (turnCubeB a d (turnCubeB a d (turnCubeB a d (turnCubeB a d c)))) =
           Euler (ex (rotationB c) + ex (axisEuler a (2 * pi * real_of_int d)))
                 (ey (rotationB c) + ey (axisEuler a (2 * pi * real_of_int d)))
                 (ez (rotationB c) + ez (axisEuler a (2 * pi * real_of_int d))) \<and>
         orientationB (turnCubeB a d (turnCubeB a d (turnCubeB a d (turnCubeB a d c)))) =
           orientationB c"
proof -
  let ?c1 = "turnCubeB a d c"
  let ?c2 = "turnCubeB a d ?c1"
  let ?c3 = "turnCubeB a d ?c2"
  let ?c4 = "turnCubeB a d ?c3"
  note d = assms(1)
  have 1: "userDataB ?c1 = turnGrid a d (userDataB c)" "positionB ?c1 = gridPosition (userDataB ?c1)"
    using turnCubeB_rest[OF d assms(2), of a] by simp_all
  have 2: "userDataB ?c2 = turnGrid a d (userDataB ?c1)" "positionB ?c2 = gridPosition (userDataB ?c2)"
    using turnCubeB_rest[OF d 1(2), of a] by simp_all
  have 3: "userDataB ?c3 = turnGrid a d (userDataB ?c2)" "positionB ?c3 = gridPosition (userDataB ?c3)"
    using turnCubeB_rest[OF d 2(2), of a] by simp_all
  have 4: "userDataB ?c4 = turnGrid a d (userDataB ?c3)" "positionB ?c4 = gridPosition (userDataB ?c4)"
    using turnCubeB_rest[OF d 3(2), of a] by simp_all
  have u: "userDataB ?c4 = userDataB c"
    by (simp only: 4(1) 3(1) 2(1) 1(1) turnGrid_four[OF d])
  have p: "positionB ?c4 = positionB c"
    by (simp only: 4(2) u assms(2))
  have r: "rotationB ?c4 =
           Euler (ex (rotationB c) + ex (axisEuler a (2 * pi * real_of_int d)))
                 (ey (rotationB c) + ey (axisEuler a (2 * pi * real_of_int d)))
                 (ez (rotationB c) + ez (axisEuler a (2 * pi * real_of_int d)))"
    by (cases a) (simp_all add: turnCubeB_rotation axisEuler_def setAxisRotation_def)
  have o: "orientationB ?c4 = orientationB c"
    unfolding orientationB_def r setFromEuler_full_turn[OF d]
    by (rule makeRotationFromQuaternion_negate)
  show ?thesis using u p r o by simp
qed

lemma turnCubeB_inSlice:
  assumes "d = 1 \<or> d = - 1" "positionB c = gridPosition (userDataB c)"
  shows "inSlice a i (userDataB (turnCubeB a d c)) = inSlice a i (userDataB c)"
  using turnCubeB_rest[OF assms, of a] turnGrid_inSlice[OF assms(1), of a i "userDataB c"] by simp

lemma turnSliceB_four_nth:
  assumes "d = 1 \<or> d = - 1" "onGridB cs" "j < length cs"
  shows "turnSliceB a i d (turnSliceB a i d (turnSliceB a i d (turnSliceB a i d cs))) ! j =
           (if inSlice a i (userDataB (cs ! j))
            then turnCubeB a d (turnCubeB a d (turnCubeB a d (turnCubeB a d (cs ! j))))
            else cs ! j)"
proof -
  note d = assms(1)
  let ?c = "cs ! j"
  have p0: "positionB ?c = gridPosition (userDataB ?c)"
    using assms(2,3) by (simp add: onGridB_def list_all_length)
  have p1: "positionB (turnCubeB a d ?c) = gridPosition (userDataB (turnCubeB a d ?c))"
    using turnCubeB_rest[OF d p0, of a] by simp
  have p2: "positionB (turnCubeB a d (turnCubeB a d ?c)) =
            gridPosition (userDataB (turnCubeB a d (turnCubeB a d ?c)))"
    using turnCubeB_rest[OF d p1, of a] by simp
  show ?thesis
    using assms(3)
    by (simp add: turnSliceB_nth turnCubeB_inSlice[OF d p0] turnCubeB_inSlice[OF d p1]
          turnCubeB_inSlice[OF d p2])
qed

lemma four_turns_B:
  assumes "atRestB sb" "validMove a i d"
    "completesB e1 es1" "completesB e2 es2" "completesB e3 es3" "completesB e4 es4"
    "j < length (smallCubesB sb)"
  shows "userDataB (smallCubesB (rotateSliceRunB a i d e4 es4 (rotateSliceRunB a i d e3 es3
           (rotateSliceRunB a i d e2 es2 (rotateSliceRunB a i d e1 es1 sb)))) ! j) =
           userDataB (smallCubesB sb ! j) \<and>
         positionB (smallCubesB (rotateSliceRunB a i d e4 es4 (rotateSliceRunB a i d e3 es3
           (rotateSliceRunB a i d e2 es2 (rotateSliceRunB a i d e1 es1 sb)))) ! j) =
           positionB (smallCubesB sb ! j) \<and>
         orientationB (smallCubesB (rotateSliceRunB a i d e4 es4 (rotateSliceRunB a i d e3 es3
           (rotateSliceRunB a i d e2 es2 (rotateSliceRunB a i d e1 es1 sb)))) ! j) =
           orientationB (smallCubesB sb ! j)"
proof -
  let ?s1 = "rotateSliceRunB a i d e1 es1 sb"
  let ?s2 = "rotateSliceRunB a i d e2 es2 ?s1"
  let ?s3 = "rotateSliceRunB a i d e3 es3 ?s2"
  let ?s4 = "rotateSliceRunB a i d e4 es4 ?s3"
  from assms(2) have d: "d = 1 \<or> d = - 1" by (simp add: validMove_def)
  have og: "onGridB (smallCubesB sb)" using assms(1) by (simp add: atRestB_def)
  have r1: "atRestB ?s1" using rotateSliceRunB_grid[OF assms(1,2,3)] by simp
  have r2: "atRestB ?s2" using rotateSliceRunB_grid[OF r1 assms(2,4)] by simp
  have r3: "atRestB ?s3" using rotateSliceRunB_grid[OF r2 assms(2,5)] by simp
  have c1: "smallCubesB ?s1 = turnSliceB a i d (smallCubesB sb)"
    using rotateSliceRunB_landed[OF _ _ assms(3), of sb a i d] assms(1)
    by (simp add: landedB_def atRestB_def)
  have c2: "smallCubesB ?s2 = turnSliceB a i d (smallCubesB ?s1)"
    using rotateSliceRunB_landed[OF _ _ assms(4), of ?s1 a i d] r1
    by (simp add: landedB_def atRestB_def)
  have c3: "smallCubesB ?s3 = turnSliceB a i d (smallCubesB ?s2)"
    using rotateSliceRunB_landed[OF _ _ assms(5), of ?s2 a i d] r2
    by (simp add: landedB_def atRestB_def)
  have c4: "smallCubesB ?s4 = turnSliceB a i d (smallCubesB ?s3)"
    using rotateSliceRunB_landed[OF _ _ assms(6), of ?s3 a i d] r3
    by (simp add: landedB_def atRestB_def)
  have p0: "positionB (smallCubesB sb ! j) = gridPosition (userDataB (smallCubesB sb ! j))"
    using og assms(7) by (simp add: onGridB_def list_all_length)
  have n: "smallCubesB ?s4 ! j =
           (if inSlice a i (userDataB (smallCubesB sb ! j))
            then turnCubeB a d (turnCubeB a d (turnCubeB a d (turnCubeB a d (smallCubesB sb ! j))))
            else smallCubesB sb ! j)"
    by (simp only: c4 c3 c2 c1 turnSliceB_four_nth[OF d og assms(7)])
  show ?thesis
    unfolding n using turnCubeB_four[OF d p0, of a] by simp
qed

text \<open>
  Claim C5. For every axis, slice index and direction, four completed quarter turns of the
  same slice in the same direction, made from a rest state, return every cube to its grid
  coordinate, its position and its orientation, the rotation matrix of its quaternion in
  main.js and of its Euler angles in the second variant (there the Euler angle about the
  axis has grown by a full turn). A rest state of main.js carries axis-aligned orientations,
  with a quaternion of either sign; the initial state is one, and every completed rotation
  from such a state ends in one.
\<close>

theorem four_turns_identity:
  assumes "validMove a i d"
  shows "(atRest st \<and> alignedOrientations (smallCubes st) \<and>
          completes e1 es1 \<and> completes e2 es2 \<and> completes e3 es3 \<and> completes e4 es4 \<and>
          k < length (smallCubes st) \<longrightarrow>
            userData (smallCubes (rotateSliceRun a i d r4 e4 es4 (rotateSliceRun a i d r3 e3 es3
              (rotateSliceRun a i d r2 e2 es2 (rotateSliceRun a i d r1 e1 es1 st)))) ! k) =
              userData (smallCubes st ! k) \<and>
            position (smallCubes (rotateSliceRun a i d r4 e4 es4 (rotateSliceRun a i d r3 e3 es3
              (rotateSliceRun a i d r2 e2 es2 (rotateSliceRun a i d r1 e1 es1 st)))) ! k) =
              position (smallCubes st ! k) \<and>
            makeRotationFromQuaternion (quaternion (smallCubes (rotateSliceRun a i d r4 e4 es4
              (rotateSliceRun a i d r3 e3 es3 (rotateSliceRun a i d r2 e2 es2
                (rotateSliceRun a i d r1 e1 es1 st)))) ! k)) =
              makeRotationFromQuaternion (quaternion (smallCubes st ! k)) \<and>
            atRest (rotateSliceRun a i d r1 e1 es1 st) \<and>
            alignedOrientations (smallCubes (rotateSliceRun a i d r1 e1 es1 st))) \<and>
         (atRestB sb \<and> completesB f1 fs1 \<and> completesB f2 fs2 \<and> completesB f3 fs3 \<and>
          completesB f4 fs4 \<and> j < length (smallCubesB sb) \<longrightarrow>
            userDataB (smallCubesB (rotateSliceRunB a i d f4 fs4 (rotateSliceRunB a i d f3 fs3
              (rotateSliceRunB a i d f2 fs2 (rotateSliceRunB a i d f1 fs1 sb)))) ! j) =
              userDataB (smallCubesB sb ! j) \<and>
            positionB (smallCubesB (rotateSliceRunB a i d f4 fs4 (rotateSliceRunB a i d f3 fs3
              (rotateSliceRunB a i d f2 fs2 (rotateSliceRunB a i d f1 fs1 sb)))) ! j) =
              positionB (smallCubesB sb ! j) \<and>
            orientationB (smallCubesB (rotateSliceRunB a i d f4 fs4 (rotateSliceRunB a i d f3 fs3
              (rotateSliceRunB a i d f2 fs2 (rotateSliceRunB a i d f1 fs1 sb)))) ! j) =
              orientationB (smallCubesB sb ! j))"
  using four_turns_A[OF _ _ assms, of st e1 es1 e2 es2 e3 es3 e4 es4 k r4 r3 r2 r1]
    four_turns_B[OF _ assms, of sb f1 fs1 f2 fs2 f3 fs3 f4 fs4 j]
    rotateSliceRun_aligned[OF _ _ assms, of st e1 es1 r1]
  by blast

theorem four_turns_identity_witness:
  "validMove AxisZ 0 1 \<and> atRest initialState \<and> alignedOrientations (smallCubes initialState) \<and>
   completes 0 [400] \<and> (3::nat) < length (smallCubes initialState) \<and>
   atRestB initialStateB \<and> completesB 0 [700] \<and>
   (3::nat) < length (smallCubesB initialStateB) \<and>
   userData (smallCubes (rotateSliceRun AxisZ 0 1 True 0 [400] (rotateSliceRun AxisZ 0 1 True 0 [400]
     (rotateSliceRun AxisZ 0 1 True 0 [400] (rotateSliceRun AxisZ 0 1 True 0 [400]
       initialState)))) ! 3) = userData (smallCubes initialState ! 3) \<and>
   makeRotationFromQuaternion (quaternion (smallCubes (rotateSliceRun AxisZ 0 1 True 0 [400]
     (rotateSliceRun AxisZ 0 1 True 0 [400] (rotateSliceRun AxisZ 0 1 True 0 [400]
       (rotateSliceRun AxisZ 0 1 True 0 [400] initialState)))) ! 3)) =
     makeRotationFromQuaternion (quaternion (smallCubes initialState ! 3)) \<and>
   orientationB (smallCubesB (rotateSliceRunB AxisZ 0 1 0 [700] (rotateSliceRunB AxisZ 0 1 0 [700]
     (rotateSliceRunB AxisZ 0 1 0 [700] (rotateSliceRunB AxisZ 0 1 0 [700] initialStateB)))) ! 3) =
     orientationB (smallCubesB initialStateB ! 3)"
proof -
  have v: "validMove AxisZ 0 1" by (simp add: validMove_def)
  have c: "completes 0 [400]" by (simp add: completes_def duration_def)
  have cb: "completesB 0 [700]" by (simp add: completesB_def durationB_def)
  have ro: "alignedOrientations (smallCubes initialState)"
    using alignedOrientations_buildCubes by (simp add: initialState_def)
  have l: "(3::nat) < length (smallCubesB initialStateB)"
    by (simp add: initialStateB_def buildCubesB_list)
  have la: "(3::nat) < length (smallCubes initialState)"
    by (simp add: initialState_def length_buildCubes)
  show ?thesis
    using four_turns_identity[OF v, of initialState 0 "[400]" 0 "[400]" 0 "[400]" 0 "[400]" 3
        True True True True initialStateB 0 "[700]" 0 "[700]" 0 "[700]" 0 "[700]" 3]
      v c cb ro l la atRest_initialState atRestB_initialStateB
    by simp
qed

lemma snapCube_position: "position (snapCube c) = gridPosition (userData (snapCube c))"
  by (simp add: snapCube_def gridPosition_def Let_def)

lemma snapCube_quaternion: "quaternion (snapCube c) = snapQuaternion (quaternion c)"
  by (simp add: snapCube_def Let_def)

lemma snapCube_twice_grid:
  "userData (snapCube (snapCube c)) = userData (snapCube c) \<and>
   position (snapCube (snapCube c)) = position (snapCube c)"
  using snapCube_gridPosition[OF snapCube_position[of c]] by (simp add: snapCube_position)

text \<open>
  Claim C6. The snap step is idempotent: applied twice it gives the grid coordinate, the
  position and the orientation that it gives applied once. The orientation is the same
  rotation matrix; the stored quaternion is the same or its negation, and it is the same
  whenever the first snap gives one of the 24 quaternions of \<open>Q24\<close>, as every snap of a
  rotation from a rest state does.
\<close>

theorem snap_idempotent:
  "userData (snapCube (snapCube c)) = userData (snapCube c) \<and>
   position (snapCube (snapCube c)) = position (snapCube c) \<and>
   makeRotationFromQuaternion (quaternion (snapCube (snapCube c))) =
     makeRotationFromQuaternion (quaternion (snapCube c)) \<and>
   (quaternion (snapCube (snapCube c)) = quaternion (snapCube c) \<or>
    quaternion (snapCube (snapCube c)) = negate (quaternion (snapCube c))) \<and>
   (quaternion (snapCube c) \<in> set Q24 \<longrightarrow> snapCube (snapCube c) = snapCube c)"
proof -
  have s: "quaternion (snapCube (snapCube c)) = quaternion (snapCube c) \<or>
    quaternion (snapCube (snapCube c)) = negate (quaternion (snapCube c))"
    using snapQuaternion_twice[of "quaternion c"] by (simp add: snapCube_quaternion)
  then have m: "makeRotationFromQuaternion (quaternion (snapCube (snapCube c))) =
     makeRotationFromQuaternion (quaternion (snapCube c))"
    by (auto simp: makeRotationFromQuaternion_negate)
  have e: "snapCube (snapCube c) = snapCube c" if "quaternion (snapCube c) \<in> set Q24"
  proof -
    have "quaternion (snapCube (snapCube c)) = quaternion (snapCube c)"
      using Q24_fixed[OF that] by (simp add: snapCube_quaternion)
    then show ?thesis using snapCube_twice_grid[of c] by (intro cube.equality) simp_all
  qed
  show ?thesis using snapCube_twice_grid[of c] s m e by blast
qed

lemma Math_round_drift: "Math_round (4043 / 2020) = 2"
  unfolding Math_round_def by (rule floor_unique) simp_all

lemma Math_round_1: "Math_round 1 = 1"
  using Math_round_of_int[of 1] by simp

lemma snapCube_drifted:
  "snapCube driftedCube =
     \<lparr> userData = GridPos 2 1 1, position = gridPosition (GridPos 2 1 1),
       quaternion = Quaternion 0 0 0 1 \<rparr>"
proof -
  have q: "snapQuaternion (Quaternion 0 0 0 1) = Quaternion 0 0 0 1"
    by (rule Q24_fixed) (simp add: Q24_values)
  show ?thesis
    by (simp add: snapCube_def driftedCube_def Let_def spacing offset_1 Math_round_drift
          Math_round_1 gridPosition_def q)
qed

theorem snap_idempotent_witness:
  "quaternion (snapCube driftedCube) \<in> set Q24 \<and>
   snapCube (snapCube driftedCube) = snapCube driftedCube \<and>
   position driftedCube \<noteq> position (snapCube driftedCube)"
proof -
  have a: "quaternion (snapCube driftedCube) \<in> set Q24"
    by (simp add: snapCube_drifted Q24_values)
  have b: "position driftedCube \<noteq> position (snapCube driftedCube)"
    unfolding snapCube_drifted
    by (simp add: driftedCube_def gridPosition_def spacing offset_1)
  show ?thesis using snap_idempotent[of driftedCube] a b by simp
qed




























end
